theory Spec2Isabelle
  imports Main "HOL-Library.Word"
begin

unbundle bit_operations_syntax

section \<open>Common infrastructure of the three testbenches\<close>

text \<open>
  The testbenches drive classes generated by Verilator (\<open>VTestModule\<close>,
  \<open>VSyncReset4BitReg\<close>, \<open>VTenTimer\<close>).  The generated headers are not part of the
  repository, so the simulated circuit is a parameter of every definition below: a
  \<open>model\<close> gives the object that \<open>new\<close> returns (the values of its input ports and
  everything else it holds), what one call of \<open>eval()\<close> does to the part of the object
  that the simulation owns, given the current values of the input ports, and how the
  output ports are read from that part.  The testbench alone writes input ports and
  \<open>eval()\<close> alone writes output ports, as the interface of the simulation engine has it.
  Ports of up to eight bits have Verilator's type \<open>CData\<close>, an unsigned byte.
\<close>

type_synonym CData = "8 word"

record ('i, 's, 'o) model =
  new_in :: 'i
  new_st :: 's
  eval :: "'i \<Rightarrow> 's \<Rightarrow> 's"
  outputs :: "'s \<Rightarrow> 'o"

text \<open>
  What a run does to the outside world, in order: a line on \<open>std::cout\<close>, a call of the
  waveform recorder (\<open>open\<close>, \<open>dump\<close> with its time stamp, \<open>close\<close>), and the release
  of the model object by \<open>delete\<close>.
\<close>

datatype 'l event =
    Cout 'l
  | Trace_open
  | Trace_dump "64 word"
  | Trace_close
  | Delete_dut

text \<open>
  The variables of \<open>main\<close>: the model object (input ports \<open>dut_in\<close>, the rest
  \<open>dut_st\<close>), the verdict, and the effects so far.
\<close>

record ('i, 's, 'l) bench =
  dut_in :: 'i
  dut_st :: 's
  pass :: bool
  events :: "'l event list"

text \<open>\<open>for (int i = lo; i < n; i++) body\<close>, the state threaded through the body.\<close>

function for_loop :: "int \<Rightarrow> int \<Rightarrow> (int \<Rightarrow> 'a \<Rightarrow> 'a) \<Rightarrow> 'a \<Rightarrow> 'a" where
  "for_loop i n body s = (if i < n then for_loop (i + 1) n body (body i s) else s)"
  by pat_completeness auto
termination
  by (relation "measure (\<lambda>(i, n, body, s). nat (n - i))") auto

declare for_loop.simps [simp del]

text \<open>The remainder of C's \<open>%\<close> on \<open>int\<close>: the quotient is truncated towards zero.\<close>

definition c_rem :: "int \<Rightarrow> int \<Rightarrow> int" where
  "c_rem a b = sgn a * (\<bar>a\<bar> mod \<bar>b\<bar>)"

text \<open>The states of the simulation after each call of \<open>eval()\<close>, for the input port
  values seen by the successive calls.\<close>

fun run_evals :: "('i \<Rightarrow> 's \<Rightarrow> 's) \<Rightarrow> 'i list \<Rightarrow> 's \<Rightarrow> 's list" where
  "run_evals e [] t = []"
| "run_evals e (i # is) t = e i t # run_evals e is (e i t)"

section \<open>The adder testbench (docs)\<close>

record adder_in =
  io_a :: CData
  io_b :: CData

record adder_out =
  io_c :: CData

text \<open>
  The lines of the adder testbench: \<open>TEST FAILED: a + b => c (expected e)\<close> with its four
  numbers, and \<open>--- TEST PASSED ---\<close>.
\<close>

datatype adder_line =
    Test_failed int int int int
  | Test_passed

type_synonym 's adder_model = "(adder_in, 's, adder_out) model"
type_synonym 's adder_bench = "(adder_in, 's, adder_line) bench"

definition expected_c :: "int \<Rightarrow> int \<Rightarrow> int" where
  "expected_c a b = (a + b) AND 0xF"

text \<open>The body of the inner loop (lines 16 to 29).\<close>

definition adder_body :: "'s adder_model \<Rightarrow> int \<Rightarrow> int \<Rightarrow> 's adder_bench \<Rightarrow> 's adder_bench" where
  "adder_body M a b s =
     (let s1 = s\<lparr>dut_in := (dut_in s)\<lparr>io_a := word_of_int a\<rparr>\<rparr>;
          s2 = s1\<lparr>dut_in := (dut_in s1)\<lparr>io_b := word_of_int b\<rparr>\<rparr>;
          s3 = s2\<lparr>dut_st := eval M (dut_in s2) (dut_st s2)\<rparr>;
          c = io_c (outputs M (dut_st s3))
      in if uint c \<noteq> expected_c a b
         then s3\<lparr>events := events s3 @ [Cout (Test_failed a b (uint c) (expected_c a b))],
                 pass := False\<rparr>
         else s3)"

definition adder_init :: "'s adder_model \<Rightarrow> 's adder_bench" where
  "adder_init M = \<lparr>dut_in = new_in M, dut_st = new_st M, pass = True, events = []\<rparr>"

definition adder_loops :: "'s adder_model \<Rightarrow> 's adder_bench \<Rightarrow> 's adder_bench" where
  "adder_loops M s = for_loop 0 16 (\<lambda>a. for_loop 0 16 (\<lambda>b. adder_body M a b)) s"

text \<open>\<open>main\<close>: the state at the end and the value returned (lines 33 to 38).\<close>

definition adder_main :: "'s adder_model \<Rightarrow> 's adder_bench \<times> int" where
  "adder_main M =
     (let s = adder_loops M (adder_init M);
          s1 = (if pass s then s\<lparr>events := events s @ [Cout Test_passed]\<rparr> else s);
          s2 = s1\<lparr>events := events s1 @ [Delete_dut]\<rparr>
      in (s2, 0))"

text \<open>
  What the simulated adder answers to a sequence of operand pairs, whatever is done
  with the answers: each pair is written to the input ports, \<open>eval()\<close> is called once,
  and \<open>io_c\<close> is read.
\<close>

definition adder_drive :: "'s adder_model \<Rightarrow> int \<times> int \<Rightarrow> adder_in \<times> 's \<Rightarrow> adder_in \<times> 's" where
  "adder_drive M v d =
     (let i = (fst d)\<lparr>io_a := word_of_int (fst v), io_b := word_of_int (snd v)\<rparr>
      in (i, eval M i (snd d)))"

fun adder_trace :: "'s adder_model \<Rightarrow> adder_in \<times> 's \<Rightarrow> (int \<times> int) list \<Rightarrow> (int \<times> int \<times> int) list" where
  "adder_trace M d [] = []"
| "adder_trace M d (v # vs) =
     (fst v, snd v, uint (io_c (outputs M (snd (adder_drive M v d)))))
       # adder_trace M (adder_drive M v d) vs"

text \<open>The values of the input ports at the evaluation for a pair.\<close>

definition adder_inputs :: "int \<times> int \<Rightarrow> adder_in" where
  "adder_inputs v = \<lparr>io_a = word_of_int (fst v), io_b = word_of_int (snd v)\<rparr>"

definition adder_vectors :: "(int \<times> int) list" where
  "adder_vectors = List.product [0..15] [0..15]"

definition adder_mismatch :: "int \<times> int \<times> int \<Rightarrow> bool" where
  "adder_mismatch r = (case r of (a, b, c) \<Rightarrow> c \<noteq> (a + b) mod 16)"

definition adder_report :: "int \<times> int \<times> int \<Rightarrow> adder_line event" where
  "adder_report r = (case r of (a, b, c) \<Rightarrow> Cout (Test_failed a b c ((a + b) mod 16)))"

text \<open>Two simulated adders to run the testbench on: a correct one, and one whose output
  is stuck at zero.\<close>

definition adder_good :: "CData adder_model" where
  "adder_good = \<lparr>new_in = \<lparr>io_a = 0, io_b = 0\<rparr>, new_st = 0,
     eval = (\<lambda>i t. (io_a i + io_b i) AND 0xF), outputs = (\<lambda>t. \<lparr>io_c = t\<rparr>)\<rparr>"

definition adder_stuck :: "CData adder_model" where
  "adder_stuck = \<lparr>new_in = \<lparr>io_a = 0, io_b = 0\<rparr>, new_st = 0,
     eval = (\<lambda>i t. 0), outputs = (\<lambda>t. \<lparr>io_c = t\<rparr>)\<rparr>"

section \<open>Clocked circuits\<close>

text \<open>Both sequential circuits have Chisel's implicit \<open>clock\<close> and \<open>reset\<close> inputs.\<close>

record clocked =
  clock :: CData
  reset :: CData

text \<open>\<open>dut->eval()\<close>: the simulation sees the input ports as they are now.\<close>

definition dut_eval :: "('i, 's, 'o) model \<Rightarrow> ('i, 's, 'l, 'z) bench_scheme \<Rightarrow> ('i, 's, 'l, 'z) bench_scheme" where
  "dut_eval M s = s\<lparr>dut_st := eval M (dut_in s) (dut_st s)\<rparr>"

definition print :: "'l \<Rightarrow> ('i, 's, 'l, 'z) bench_scheme \<Rightarrow> ('i, 's, 'l, 'z) bench_scheme" where
  "print l s = s\<lparr>events := events s @ [Cout l]\<rparr>"

text \<open>
  One full clock period as the simulation sees it, with the other inputs held: an
  evaluation with the clock high, then one with the clock low.
\<close>

definition period :: "('z clocked_scheme \<Rightarrow> 's \<Rightarrow> 's) \<Rightarrow> 'z clocked_scheme \<Rightarrow> 's \<Rightarrow> 's" where
  "period e i t = e (i\<lparr>clock := 0\<rparr>) (e (i\<lparr>clock := 1\<rparr>) t)"

definition period_inputs :: "'z clocked_scheme \<Rightarrow> 'z clocked_scheme list" where
  "period_inputs i = [i\<lparr>clock := 1\<rparr>, i\<lparr>clock := 0\<rparr>]"

text \<open>The states of the simulation at the end of each of a sequence of periods.\<close>

fun run_periods :: "('z clocked_scheme \<Rightarrow> 's \<Rightarrow> 's) \<Rightarrow> 'z clocked_scheme list \<Rightarrow> 's \<Rightarrow> 's list" where
  "run_periods e [] t = []"
| "run_periods e (i # is) t = period e i t # run_periods e is (period e i t)"

text \<open>Every second element of a list: with \<open>run_evals\<close>, the states at the end of each
  pair of evaluations.\<close>

fun seconds :: "'a list \<Rightarrow> 'a list" where
  "seconds (x # y # xs) = y # seconds xs"
| "seconds xs = []"

section \<open>The register testbench (tests)\<close>

record reg_in = clocked +
  io_reset :: CData
  io_d :: CData

record reg_out =
  io_q :: CData

text \<open>
  The lines of the register testbench: \<open>Error at test case i: expected e, got q\<close>,
  \<open>TEST PASSED\<close> and \<open>TEST FAILED\<close>.
\<close>

datatype reg_line =
    Error_at int int int
  | Reg_passed
  | Reg_failed

text \<open>\<open>struct TestCase\<close> and the table \<open>test_cases[4]\<close>.\<close>

record TestCase =
  io_reset_tc :: bool
  d_tc :: "8 word"
  expected_q :: "8 word"

definition test_cases :: "TestCase list" where
  "test_cases =
     [\<lparr>io_reset_tc = True, d_tc = 0xA, expected_q = 0x0\<rparr>,
      \<lparr>io_reset_tc = False, d_tc = 0xA, expected_q = 0xA\<rparr>,
      \<lparr>io_reset_tc = True, d_tc = 0x5, expected_q = 0x0\<rparr>,
      \<lparr>io_reset_tc = False, d_tc = 0x5, expected_q = 0x5\<rparr>]"

text \<open>The variables of the register's \<open>main\<close> (its verdict \<open>test_passed\<close> is the field
  \<open>pass\<close>) and the global \<open>sim_time\<close>.\<close>

record ('i, 's, 'l) reg_bench = "('i, 's, 'l) bench" +
  sim_time :: "64 word"

type_synonym 's reg_model = "(reg_in, 's, reg_out) model"
type_synonym 's reg_state = "(reg_in, 's, reg_line) reg_bench"

text \<open>\<open>m_trace->dump(sim_time++)\<close>\<close>

definition dump :: "'s reg_state \<Rightarrow> 's reg_state" where
  "dump s = s\<lparr>events := events s @ [Trace_dump (sim_time s)], sim_time := sim_time s + 1\<rparr>"

text \<open>Lines 12 to 19: the model and the recorder are created, the waveform file is opened.\<close>

definition reg_start :: "'s reg_model \<Rightarrow> 's reg_state" where
  "reg_start M =
     \<lparr>dut_in = new_in M, dut_st = new_st M, pass = True, events = [Trace_open], sim_time = 0\<rparr>"

text \<open>Lines 22 to 32: the initial reset.\<close>

definition reg_reset :: "'s reg_model \<Rightarrow> 's reg_state \<Rightarrow> 's reg_state" where
  "reg_reset M s =
     (let s1 = s\<lparr>dut_in := (dut_in s)\<lparr>clock := 0\<rparr>\<rparr>;
          s2 = s1\<lparr>dut_in := (dut_in s1)\<lparr>reset := 1\<rparr>\<rparr>;
          s3 = s2\<lparr>dut_in := (dut_in s2)\<lparr>io_reset := 1\<rparr>\<rparr>;
          s4 = dump (dut_eval M s3);
          s5 = s4\<lparr>dut_in := (dut_in s4)\<lparr>clock := 1\<rparr>\<rparr>;
          s6 = dump (dut_eval M s5);
          s7 = s6\<lparr>dut_in := (dut_in s6)\<lparr>clock := 0\<rparr>\<rparr>
      in s7\<lparr>dut_in := (dut_in s7)\<lparr>reset := 0\<rparr>\<rparr>)"

text \<open>Lines 47 to 63: the body of the loop over the table.  The index stays below 4.\<close>

definition reg_case :: "'s reg_model \<Rightarrow> int \<Rightarrow> 's reg_state \<Rightarrow> 's reg_state" where
  "reg_case M i s =
     (let tc = test_cases ! nat i;
          s1 = s\<lparr>dut_in := (dut_in s)\<lparr>io_reset := of_bool (io_reset_tc tc)\<rparr>\<rparr>;
          s2 = s1\<lparr>dut_in := (dut_in s1)\<lparr>io_d := d_tc tc\<rparr>\<rparr>;
          s3 = s2\<lparr>dut_in := (dut_in s2)\<lparr>clock := 1\<rparr>\<rparr>;
          s4 = dump (dut_eval M s3);
          s5 = s4\<lparr>dut_in := (dut_in s4)\<lparr>clock := 0\<rparr>\<rparr>;
          s6 = dump (dut_eval M s5);
          q = io_q (outputs M (dut_st s6))
      in if uint q \<noteq> uint (expected_q tc)
         then (print (Error_at i (uint (expected_q tc)) (uint q)) s6)\<lparr>pass := False\<rparr>
         else s6)"

definition reg_loop :: "'s reg_model \<Rightarrow> 's reg_state \<Rightarrow> 's reg_state" where
  "reg_loop M s = for_loop 0 4 (reg_case M) s"

text \<open>\<open>main\<close>: the state at the end and the value returned (lines 66 to 75).\<close>

definition reg_main :: "'s reg_model \<Rightarrow> 's reg_state \<times> int" where
  "reg_main M =
     (let s = reg_loop M (reg_reset M (reg_start M));
          s1 = s\<lparr>events := events s @ [Trace_close]\<rparr>;
          s2 = s1\<lparr>events := events s1 @ [Delete_dut]\<rparr>
      in if pass s2 then (print Reg_passed s2, 0) else (print Reg_failed s2, 1))"

text \<open>
  What the simulation is given, whatever it answers: the inputs held during the period
  of each test case, the state after the initial reset, and the states at the end of
  the periods.
\<close>

definition reg_vector :: "TestCase \<Rightarrow> reg_in" where
  "reg_vector tc = \<lparr>clock = 0, reset = 0, io_reset = of_bool (io_reset_tc tc), io_d = d_tc tc\<rparr>"

definition reg_reset_inputs :: "'s reg_model \<Rightarrow> reg_in list" where
  "reg_reset_inputs M =
     [\<lparr>clock = 0, reset = 1, io_reset = 1, io_d = io_d (new_in M)\<rparr>,
      \<lparr>clock = 1, reset = 1, io_reset = 1, io_d = io_d (new_in M)\<rparr>]"

definition reg_eval_inputs :: "'s reg_model \<Rightarrow> reg_in list" where
  "reg_eval_inputs M = reg_reset_inputs M @ concat (map (period_inputs \<circ> reg_vector) test_cases)"

definition reg_t0 :: "'s reg_model \<Rightarrow> 's" where
  "reg_t0 M = fold (eval M) (reg_reset_inputs M) (new_st M)"

definition reg_samples :: "'s reg_model \<Rightarrow> 's list" where
  "reg_samples M = run_periods (eval M) (map reg_vector test_cases) (reg_t0 M)"

definition reg_q :: "'s reg_model \<Rightarrow> 's \<Rightarrow> int" where
  "reg_q M t = uint (io_q (outputs M t))"

text \<open>The expected output as the specification words it: zero when the reset input
  is asserted at the edge, else the data applied at that edge.\<close>

definition reg_oracle :: "reg_in \<Rightarrow> int" where
  "reg_oracle i = (if io_reset i \<noteq> 0 then 0 else uint (io_d i))"

text \<open>The comparisons of a run: the index of each test case, the case, and the state of
  the simulation at the end of its period; and the line that a comparison prints.\<close>

definition reg_checks :: "'s reg_model \<Rightarrow> (int \<times> TestCase \<times> 's) list" where
  "reg_checks M = zip [0..3] (zip test_cases (reg_samples M))"

definition reg_report :: "'s reg_model \<Rightarrow> int \<times> TestCase \<times> 's \<Rightarrow> reg_line event list" where
  "reg_report M r =
     (case r of (i, tc, t) \<Rightarrow>
        if reg_q M t \<noteq> uint (expected_q tc)
        then [Cout (Error_at i (uint (expected_q tc)) (reg_q M t))] else [])"

definition is_dump :: "'l event \<Rightarrow> bool" where
  "is_dump ev = (case ev of Trace_dump n \<Rightarrow> True | _ \<Rightarrow> False)"

definition is_cout :: "'l event \<Rightarrow> bool" where
  "is_cout ev = (case ev of Cout l \<Rightarrow> True | _ \<Rightarrow> False)"

text \<open>Two simulated registers: one that loads on the rising edge of \<open>clock\<close> with a
  synchronous reset, and one that ignores \<open>io_reset\<close>.  The state is the value of
  \<open>clock\<close> at the last evaluation, and \<open>io_q\<close>.\<close>

definition reg_good :: "(CData \<times> CData) reg_model" where
  "reg_good =
     \<lparr>new_in = \<lparr>clock = 0, reset = 0, io_reset = 0, io_d = 0\<rparr>, new_st = (0, 0),
      eval = (\<lambda>i t. (clock i,
          if clock i = 1 \<and> fst t = 0
          then (if reset i = 1 \<or> io_reset i = 1 then 0 else io_d i AND 0xF) else snd t)),
      outputs = (\<lambda>t. \<lparr>io_q = snd t\<rparr>)\<rparr>"

definition reg_noreset :: "(CData \<times> CData) reg_model" where
  "reg_noreset =
     \<lparr>new_in = \<lparr>clock = 0, reset = 0, io_reset = 0, io_d = 0\<rparr>, new_st = (0, 0),
      eval = (\<lambda>i t. (clock i,
          if clock i = 1 \<and> fst t = 0
          then (if reset i = 1 then 0 else io_d i AND 0xF) else snd t)),
      outputs = (\<lambda>t. \<lparr>io_q = snd t\<rparr>)\<rparr>"

section \<open>The counter testbench (tests)\<close>

record tt_in = clocked +
  io_enable :: CData
  io_reset_count :: CData

record tt_out =
  io_count :: CData
  io_overflow :: CData

text \<open>
  The lines of the counter testbench, in the order of the source: the four headings
  \<open>=== Test n: ... ===\<close>; \<open>FAILED: Initial count should be 0, got c\<close>;
  \<open>FAILED: Cycle i - Expected count=e, Got=c\<close>; \<open>After cycle i: count=c, overflow=o\<close>;
  \<open>FAILED: Count changed while enable=0\<close>; \<open>Enable=0, count frozen at c\<close>;
  \<open>FAILED: Reset didn't clear counter to 0\<close>; \<open>Reset successful, count=c\<close>;
  \<open>FAILED: Overflow not set at count=9\<close>; \<open>Overflow signal works correctly\<close>; the
  rule of equals signs; \<open>TEST PASSED - All tests successful!\<close>;
  \<open>Total test cycles: n\<close>; \<open>TEST FAILED - Some tests failed\<close>.
\<close>

datatype tt_line =
    Heading nat
  | Failed_initial int
  | Failed_cycle int int int
  | After_cycle int int int
  | Failed_frozen
  | Frozen_at int
  | Failed_reset
  | Reset_successful int
  | Failed_overflow
  | Overflow_works
  | Rule
  | Tt_passed
  | Total_cycles int
  | Tt_failed

record ('i, 's, 'l) tt_bench = "('i, 's, 'l) bench" +
  test_count :: int

type_synonym 's tt_model = "(tt_in, 's, tt_out) model"
type_synonym 's tt_state = "(tt_in, 's, tt_line) tt_bench"

definition count_of :: "'s tt_model \<Rightarrow> 's \<Rightarrow> int" where
  "count_of M t = uint (io_count (outputs M t))"

definition overflow_of :: "'s tt_model \<Rightarrow> 's \<Rightarrow> int" where
  "overflow_of M t = uint (io_overflow (outputs M t))"

text \<open>\<open>dut->clock = 1; dut->eval(); dut->clock = 0; dut->eval();\<close>\<close>

definition tt_period :: "'s tt_model \<Rightarrow> 's tt_state \<Rightarrow> 's tt_state" where
  "tt_period M s =
     (let s1 = s\<lparr>dut_in := (dut_in s)\<lparr>clock := 1\<rparr>\<rparr>;
          s2 = dut_eval M s1;
          s3 = s2\<lparr>dut_in := (dut_in s2)\<lparr>clock := 0\<rparr>\<rparr>
      in dut_eval M s3)"

text \<open>Lines 7 to 21: construction, the signals initialised, the reset released.\<close>

definition tt_init :: "'s tt_model \<Rightarrow> 's tt_state" where
  "tt_init M =
     (let s = \<lparr>dut_in = new_in M, dut_st = new_st M, pass = True, events = [], test_count = 0\<rparr>;
          s1 = s\<lparr>dut_in := (dut_in s)\<lparr>clock := 0\<rparr>\<rparr>;
          s2 = s1\<lparr>dut_in := (dut_in s1)\<lparr>reset := 1\<rparr>\<rparr>;
          s3 = s2\<lparr>dut_in := (dut_in s2)\<lparr>io_enable := 0\<rparr>\<rparr>;
          s4 = s3\<lparr>dut_in := (dut_in s3)\<lparr>io_reset_count := 0\<rparr>\<rparr>;
          s5 = dut_eval M s4;
          s6 = s5\<lparr>dut_in := (dut_in s5)\<lparr>reset := 0\<rparr>\<rparr>
      in dut_eval M s6)"

text \<open>Lines 33 to 59: the body of the first loop.\<close>

definition tt_cycle :: "'s tt_model \<Rightarrow> int \<Rightarrow> 's tt_state \<Rightarrow> 's tt_state" where
  "tt_cycle M i s =
     (let s1 = tt_period M s;
          expected_count = c_rem (i + 1) 10;
          s2 = (if count_of M (dut_st s1) \<noteq> expected_count
                then (print (Failed_cycle i expected_count (count_of M (dut_st s1))) s1)
                       \<lparr>pass := False\<rparr>
                else s1);
          s3 = (if i < 15 \<and> c_rem i 5 = 0
                then print (After_cycle i (count_of M (dut_st s2)) (overflow_of M (dut_st s2))) s2
                else s2)
      in s3\<lparr>test_count := test_count s3 + 1\<rparr>)"

text \<open>Lines 23 to 59: the first test.\<close>

definition tt_test1 :: "'s tt_model \<Rightarrow> 's tt_state \<Rightarrow> 's tt_state" where
  "tt_test1 M s =
     (let s1 = print (Heading 1) s;
          s2 = s1\<lparr>dut_in := (dut_in s1)\<lparr>io_enable := 1\<rparr>\<rparr>;
          s3 = s2\<lparr>dut_in := (dut_in s2)\<lparr>io_reset_count := 0\<rparr>\<rparr>;
          s4 = (if count_of M (dut_st s3) \<noteq> 0
                then (print (Failed_initial (count_of M (dut_st s3))) s3)\<lparr>pass := False\<rparr>
                else s3)
      in for_loop 0 20 (tt_cycle M) s4)"

text \<open>Lines 66 to 76: the body of the second loop, for the value of \<open>frozen_count\<close>.\<close>

definition tt_hold :: "'s tt_model \<Rightarrow> int \<Rightarrow> int \<Rightarrow> 's tt_state \<Rightarrow> 's tt_state" where
  "tt_hold M frozen_count i s =
     (let s1 = tt_period M s
      in if count_of M (dut_st s1) \<noteq> frozen_count
         then (print Failed_frozen s1)\<lparr>pass := False\<rparr>
         else s1)"

text \<open>Lines 61 to 77: the second test.\<close>

definition tt_test2 :: "'s tt_model \<Rightarrow> 's tt_state \<Rightarrow> 's tt_state" where
  "tt_test2 M s =
     (let s1 = print (Heading 2) s;
          s2 = s1\<lparr>dut_in := (dut_in s1)\<lparr>io_enable := 0\<rparr>\<rparr>;
          frozen_count = count_of M (dut_st s2);
          s3 = for_loop 0 5 (tt_hold M frozen_count) s2
      in print (Frozen_at (count_of M (dut_st s3))) s3)"

text \<open>Lines 79 to 94: the third test.\<close>

definition tt_test3 :: "'s tt_model \<Rightarrow> 's tt_state \<Rightarrow> 's tt_state" where
  "tt_test3 M s =
     (let s1 = print (Heading 3) s;
          s2 = s1\<lparr>dut_in := (dut_in s1)\<lparr>io_enable := 1\<rparr>\<rparr>;
          s3 = s2\<lparr>dut_in := (dut_in s2)\<lparr>io_reset_count := 1\<rparr>\<rparr>;
          s4 = tt_period M s3;
          s5 = (if count_of M (dut_st s4) \<noteq> 0
                then (print Failed_reset s4)\<lparr>pass := False\<rparr>
                else print (Reset_successful (count_of M (dut_st s4))) s4)
      in s5\<lparr>dut_in := (dut_in s5)\<lparr>io_reset_count := 0\<rparr>\<rparr>)"

text \<open>Lines 107 to 116: the body of the last loop.\<close>

definition tt_check_overflow :: "'s tt_model \<Rightarrow> int \<Rightarrow> 's tt_state \<Rightarrow> 's tt_state" where
  "tt_check_overflow M i s =
     (let s1 = tt_period M s
      in if count_of M (dut_st s1) = 9 \<and> overflow_of M (dut_st s1) \<noteq> 1
         then (print Failed_overflow s1)\<lparr>pass := False\<rparr>
         else s1)"

text \<open>Lines 96 to 118: the fourth test.\<close>

definition tt_test4 :: "'s tt_model \<Rightarrow> 's tt_state \<Rightarrow> 's tt_state" where
  "tt_test4 M s =
     (let s1 = print (Heading 4) s;
          s2 = s1\<lparr>dut_in := (dut_in s1)\<lparr>io_reset_count := 1\<rparr>\<rparr>;
          s3 = tt_period M s2;
          s4 = s3\<lparr>dut_in := (dut_in s3)\<lparr>io_reset_count := 0\<rparr>\<rparr>;
          s5 = for_loop 0 10 (tt_check_overflow M) s4
      in print Overflow_works s5)"

definition tt_tests :: "'s tt_model \<Rightarrow> 's tt_state" where
  "tt_tests M = tt_test4 M (tt_test3 M (tt_test2 M (tt_test1 M (tt_init M))))"

text \<open>\<open>main\<close>: the state at the end and the value returned (lines 121 to 131).\<close>

definition tt_main :: "'s tt_model \<Rightarrow> 's tt_state \<times> int" where
  "tt_main M =
     (let s = tt_tests M;
          s1 = print Rule s;
          s2 = (if pass s1
                then print (Total_cycles (test_count s1)) (print Tt_passed s1)
                else print Tt_failed s1);
          s3 = print Rule s2;
          s4 = s3\<lparr>events := events s3 @ [Delete_dut]\<rparr>
      in (s4, if pass s4 then 0 else 1))"

text \<open>
  What the simulation is given, whatever it answers: the values of the input ports at
  the two evaluations of the start, the inputs held during each of the 37 clock periods
  that follow (20 enabled, 5 disabled, the two with the count reset, 10 enabled), and
  the states at the end of the periods.
\<close>

definition tt_inputs :: "CData \<Rightarrow> CData \<Rightarrow> CData \<Rightarrow> tt_in" where
  "tt_inputs r en rc = \<lparr>clock = 0, reset = r, io_enable = en, io_reset_count = rc\<rparr>"

definition tt_vectors :: "tt_in list" where
  "tt_vectors = replicate 20 (tt_inputs 0 1 0) @ replicate 5 (tt_inputs 0 0 0)
     @ [tt_inputs 0 1 1, tt_inputs 0 1 1] @ replicate 10 (tt_inputs 0 1 0)"

definition tt_eval_inputs :: "tt_in list" where
  "tt_eval_inputs = [tt_inputs 1 0 0, tt_inputs 0 0 0] @ concat (map period_inputs tt_vectors)"

definition tt_t0 :: "'s tt_model \<Rightarrow> 's" where
  "tt_t0 M = eval M (tt_inputs 0 0 0) (eval M (tt_inputs 1 0 0) (new_st M))"

definition tt_samples :: "'s tt_model \<Rightarrow> 's list" where
  "tt_samples M = run_periods (eval M) tt_vectors (tt_t0 M)"

text \<open>
  The expected count as the specification words it: zero after an edge with the count
  reset, the previous expected count plus one modulo ten after an enabled edge, the
  previous expected count after a disabled edge.
\<close>

definition oracle_count :: "int \<Rightarrow> tt_in \<Rightarrow> int" where
  "oracle_count prev i =
     (if io_reset_count i \<noteq> 0 then 0 else if io_enable i \<noteq> 0 then (prev + 1) mod 10 else prev)"

fun oracle_counts :: "int \<Rightarrow> tt_in list \<Rightarrow> int list" where
  "oracle_counts prev [] = []"
| "oracle_counts prev (i # is) = oracle_count prev i # oracle_counts (oracle_count prev i) is"

text \<open>The check of the last loop on one state: where the count reads 9, the overflow
  output reads 1.\<close>

definition overflow_ok :: "'s tt_model \<Rightarrow> 's \<Rightarrow> bool" where
  "overflow_ok M t = (count_of M t \<noteq> 9 \<or> overflow_of M t = 1)"

text \<open>
  The lines that report a failed comparison, and the lines that a run owes: one for
  each comparison that fails, in the order of the run, whatever came before it.  The
  comparisons are those of the count before the first edge, of the count after each of
  the first 20 periods, of the count after each of the next 5 periods with the count
  read before them, of the count after the first period with the count reset, and of
  the overflow after each of the last 10 periods.
\<close>

fun tt_failed_line :: "tt_line \<Rightarrow> bool" where
  "tt_failed_line (Failed_initial c) = True"
| "tt_failed_line (Failed_cycle i e c) = True"
| "tt_failed_line Failed_frozen = True"
| "tt_failed_line Failed_reset = True"
| "tt_failed_line Failed_overflow = True"
| "tt_failed_line l = False"

definition tt_failed :: "tt_line event \<Rightarrow> bool" where
  "tt_failed ev = (case ev of Cout l \<Rightarrow> tt_failed_line l | _ \<Rightarrow> False)"

definition tt_diagnostics :: "'s tt_model \<Rightarrow> tt_line event list" where
  "tt_diagnostics M =
     (let S = tt_samples M; c0 = count_of M (tt_t0 M)
      in (if c0 \<noteq> 0 then [Cout (Failed_initial c0)] else [])
         @ concat (map2 (\<lambda>k t. if count_of M t \<noteq> (k + 1) mod 10
                                then [Cout (Failed_cycle k ((k + 1) mod 10) (count_of M t))]
                                else [])
                     [0..19] (take 20 S))
         @ concat (map (\<lambda>t. if count_of M t \<noteq> count_of M (S ! 19) then [Cout Failed_frozen] else [])
                     (take 5 (drop 20 S)))
         @ (if count_of M (S ! 25) \<noteq> 0 then [Cout Failed_reset] else [])
         @ concat (map (\<lambda>t. if overflow_ok M t then [] else [Cout Failed_overflow])
                     (drop 27 S)))"

text \<open>
  Simulated counters.  The state is the value of \<open>clock\<close> at the last evaluation, the
  count, and the overflow output; the count moves on the rising edge of \<open>clock\<close>.
  \<open>tt_step\<close> is the decimal counter; the overflow output is computed from the inputs,
  the count before the evaluation and the count after it by the function given.
\<close>

definition tt_step :: "(tt_in \<Rightarrow> CData \<Rightarrow> CData \<Rightarrow> CData) \<Rightarrow> tt_in \<Rightarrow> CData \<times> CData \<times> CData
    \<Rightarrow> CData \<times> CData \<times> CData" where
  "tt_step ovf i t =
     (let c = fst (snd t);
          c' = (if clock i = 1 \<and> fst t = 0
                then (if reset i = 1 \<or> io_reset_count i = 1 then 0
                      else if io_enable i = 1 then (if c = 9 then 0 else c + 1) else c)
                else c)
      in (clock i, c', ovf i c c'))"

definition tt_circuit :: "(tt_in \<Rightarrow> CData \<Rightarrow> CData \<Rightarrow> CData) \<Rightarrow> (CData \<times> CData \<times> CData) tt_model" where
  "tt_circuit ovf =
     \<lparr>new_in = tt_inputs 0 0 0, new_st = (0, 0, 0), eval = tt_step ovf,
      outputs = (\<lambda>t. \<lparr>io_count = fst (snd t), io_overflow = snd (snd t)\<rparr>)\<rparr>"

text \<open>Overflow while the count is 9 and the counter is enabled.\<close>

definition tt_good :: "(CData \<times> CData \<times> CData) tt_model" where
  "tt_good = tt_circuit (\<lambda>i c c'. of_bool (c' = 9 \<and> io_enable i = 1))"

text \<open>Overflow always asserted.\<close>

definition tt_always :: "(CData \<times> CData \<times> CData) tt_model" where
  "tt_always = tt_circuit (\<lambda>i c c'. 1)"

text \<open>Overflow never asserted.\<close>

definition tt_never :: "(CData \<times> CData \<times> CData) tt_model" where
  "tt_never = tt_circuit (\<lambda>i c c'. 0)"

text \<open>Overflow asserted while the count is 8 or 9.\<close>

definition tt_early :: "(CData \<times> CData \<times> CData) tt_model" where
  "tt_early = tt_circuit (\<lambda>i c c'. of_bool (c' = 8 \<or> c' = 9))"

text \<open>
  A counter that counts correctly until the count is reset through \<open>io_reset_count\<close>
  for the first time and holds 0 from then on.  The state is the value of \<open>clock\<close> at
  the last evaluation, the count, the overflow output (never asserted), and whether
  the count has been reset.
\<close>

definition tt_halting :: "(CData \<times> CData \<times> CData \<times> bool) tt_model" where
  "tt_halting =
     \<lparr>new_in = tt_inputs 0 0 0, new_st = (0, 0, 0, False),
      eval = (\<lambda>i t.
        (let c = fst (snd t); h = snd (snd (snd t))
         in if clock i = 1 \<and> fst t = 0
            then (if reset i = 1 then (clock i, 0, 0, h)
                  else if io_reset_count i = 1 then (clock i, 0, 0, True)
                  else if io_enable i = 1 \<and> \<not> h
                       then (clock i, if c = 9 then 0 else c + 1, 0, h)
                       else (clock i, c, 0, h))
            else (clock i, c, 0, h))),
      outputs = (\<lambda>t. \<lparr>io_count = fst (snd t), io_overflow = fst (snd (snd t))\<rparr>)\<rparr>"

text \<open>A counter stuck at 3, overflow never asserted.\<close>

definition tt_stuck :: "(CData \<times> CData \<times> CData) tt_model" where
  "tt_stuck =
     \<lparr>new_in = tt_inputs 0 0 0, new_st = (0, 3, 0), eval = (\<lambda>i t. (clock i, 3, 0)),
      outputs = (\<lambda>t. \<lparr>io_count = fst (snd t), io_overflow = snd (snd t)\<rparr>)\<rparr>"

section \<open>Loops as folds\<close>

lemma for_loop_fold: "for_loop i n body s = fold body [i..n - 1] s"
proof (induction i n body s rule: for_loop.induct)
  case (1 i n body s)
  show ?case
  proof (cases "i < n")
    case True
    then have "[i..n - 1] = i # [i + 1..n - 1]"
      by (simp add: upto_rec1)
    with True 1 show ?thesis
      by (simp add: for_loop.simps [of i n])
  next
    case False
    then show ?thesis
      by (simp add: for_loop.simps [of i n])
  qed
qed

lemma for_loop_fold': "for_loop i n body = fold body [i..n - 1]"
  by (rule ext) (rule for_loop_fold)

lemma fold_product:
  "fold (\<lambda>a. fold (\<lambda>b. f a b) ys) xs s = fold (\<lambda>v. f (fst v) (snd v)) (List.product xs ys) s"
  by (induction xs arbitrary: s) (simp_all add: fold_map comp_def)

lemma expected_c_mod: "expected_c a b = (a + b) mod 16"
proof -
  have "(a + b) AND mask 4 = take_bit 4 (a + b)"
    by (simp add: take_bit_eq_mask)
  then show ?thesis
    by (simp add: expected_c_def take_bit_eq_mod mask_eq_exp_minus_1)
qed

section \<open>The adder testbench: what a run computes\<close>

lemma adder_loops_fold:
  "adder_loops M s = fold (\<lambda>v. adder_body M (fst v) (snd v)) adder_vectors s"
  by (simp add: adder_loops_def adder_vectors_def for_loop_fold' fold_product)

lemma adder_body_dut:
  "(dut_in (adder_body M a b s), dut_st (adder_body M a b s))
     = adder_drive M (a, b) (dut_in s, dut_st s)"
  by (simp add: adder_body_def adder_drive_def Let_def)

lemma adder_fold_dut:
  "(dut_in (fold (\<lambda>v. adder_body M (fst v) (snd v)) vs s),
    dut_st (fold (\<lambda>v. adder_body M (fst v) (snd v)) vs s))
     = fold (adder_drive M) vs (dut_in s, dut_st s)"
proof (induction vs arbitrary: s)
  case Nil
  show ?case by simp
next
  case (Cons v vs)
  show ?case
    using Cons.IH [of "adder_body M (fst v) (snd v) s"]
    by (simp add: adder_body_dut)
qed

lemma adder_fold_pass:
  "pass (fold (\<lambda>v. adder_body M (fst v) (snd v)) vs s)
     = (pass s \<and> filter adder_mismatch (adder_trace M (dut_in s, dut_st s) vs) = [])"
proof (induction vs arbitrary: s)
  case Nil
  show ?case by simp
next
  case (Cons v vs)
  have d: "adder_drive M v (dut_in s, dut_st s)
      = (dut_in (adder_body M (fst v) (snd v) s), dut_st (adder_body M (fst v) (snd v) s))"
    by (simp add: adder_body_dut)
  have p: "pass (adder_body M (fst v) (snd v) s)
      = (pass s \<and> \<not> adder_mismatch (fst v, snd v,
            uint (io_c (outputs M (snd (adder_drive M v (dut_in s, dut_st s)))))))"
    by (simp add: adder_body_def adder_drive_def adder_mismatch_def expected_c_mod Let_def)
  show ?case
    using Cons.IH [of "adder_body M (fst v) (snd v) s"]
    by (simp add: d [symmetric] p)
qed

lemma adder_fold_events:
  "events (fold (\<lambda>v. adder_body M (fst v) (snd v)) vs s)
     = events s @ map adder_report
         (filter adder_mismatch (adder_trace M (dut_in s, dut_st s) vs))"
proof (induction vs arbitrary: s)
  case Nil
  show ?case by simp
next
  case (Cons v vs)
  have d: "adder_drive M v (dut_in s, dut_st s)
      = (dut_in (adder_body M (fst v) (snd v) s), dut_st (adder_body M (fst v) (snd v) s))"
    by (simp add: adder_body_dut)
  have e: "events (adder_body M (fst v) (snd v) s)
      = events s @ map adder_report (filter adder_mismatch
          [(fst v, snd v, uint (io_c (outputs M (snd (adder_drive M v (dut_in s, dut_st s))))))])"
    by (simp add: adder_body_def adder_drive_def adder_mismatch_def adder_report_def
        expected_c_mod Let_def)
  show ?case
    using Cons.IH [of "adder_body M (fst v) (snd v) s"]
    by (simp add: d [symmetric] e)
qed

lemma adder_trace_vectors: "map (\<lambda>r. (fst r, fst (snd r))) (adder_trace M d vs) = vs"
  by (induction vs arbitrary: d) simp_all

section \<open>Clock periods and loops over them\<close>

lemma period_clock [simp]: "period e (i\<lparr>clock := c\<rparr>) = period e i"
  by (rule ext) (simp add: period_def)

lemma length_run_periods [simp]: "length (run_periods e vs t) = length vs"
  by (induction vs arbitrary: t) simp_all

lemma run_periods_append:
  "run_periods e (xs @ ys) t = run_periods e xs t @ run_periods e ys (fold (period e) xs t)"
  by (induction xs arbitrary: t) simp_all

lemma last_run_periods:
  "vs \<noteq> [] \<Longrightarrow> last (run_periods e vs t) = fold (period e) vs t"
proof (induction vs arbitrary: t)
  case Nil
  then show ?case by simp
next
  case (Cons v vs)
  then show ?case by (cases vs) simp_all
qed

lemma run_periods_clock:
  "run_periods e (replicate n (i\<lparr>clock := c\<rparr>)) t = run_periods e (replicate n i) t"
  by (induction n arbitrary: t) simp_all

lemma fold_period_clock:
  "fold (period e) (replicate n (i\<lparr>clock := c\<rparr>)) t = fold (period e) (replicate n i) t"
  by (induction n arbitrary: t) simp_all

lemma seconds_run_evals:
  "seconds (run_evals e (concat (map period_inputs vs)) t) = run_periods e vs t"
  by (induction vs arbitrary: t) (simp_all add: period_inputs_def period_def)

lemma fold_run_evals:
  "fold e (concat (map period_inputs vs)) t = fold (period e) vs t"
  by (induction vs arbitrary: t) (simp_all add: period_inputs_def period_def)

lemma periodic_fold_in:
  assumes "\<And>x s. dut_in (body x s) = (dut_in s)\<lparr>clock := 0\<rparr>"
  shows "dut_in (fold body xs s) = (if xs = [] then dut_in s else (dut_in s)\<lparr>clock := 0\<rparr>)"
  by (induction xs arbitrary: s) (simp_all add: assms)

lemma periodic_fold_st:
  assumes "\<And>x s. dut_in (body x s) = (dut_in s)\<lparr>clock := 0\<rparr>"
    and "\<And>x s. dut_st (body x s) = period e (dut_in s) (dut_st s)"
  shows "dut_st (fold body xs s) = fold (period e) (replicate (length xs) (dut_in s)) (dut_st s)"
  by (induction xs arbitrary: s) (simp_all add: assms fold_period_clock)

lemma periodic_fold_pass:
  assumes "\<And>x s. dut_in (body x s) = (dut_in s)\<lparr>clock := 0\<rparr>"
    and "\<And>x s. dut_st (body x s) = period e (dut_in s) (dut_st s)"
    and "\<And>x s. pass (body x s) = (pass s \<and> ok x (dut_st (body x s)))"
  shows "pass (fold body xs s)
     = (pass s \<and> list_all2 ok xs (run_periods e (replicate (length xs) (dut_in s)) (dut_st s)))"
  by (induction xs arbitrary: s) (auto simp add: assms run_periods_clock)

lemma periodic_fold_events:
  assumes "\<And>x s. dut_in (body x s) = (dut_in s)\<lparr>clock := 0\<rparr>"
    and "\<And>x s. dut_st (body x s) = period e (dut_in s) (dut_st s)"
    and "\<And>x s. obs (body x s) = obs s @ lines x (dut_st (body x s))"
  shows "obs (fold body xs s)
     = obs s @ concat (map2 lines xs (run_periods e (replicate (length xs) (dut_in s)) (dut_st s)))"
  by (induction xs arbitrary: s) (simp_all add: assms run_periods_clock)

lemma tt_period_simps [simp]:
  "dut_in (tt_period M s) = (dut_in s)\<lparr>clock := 0\<rparr>"
  "dut_st (tt_period M s) = period (eval M) (dut_in s) (dut_st s)"
  "pass (tt_period M s) = pass s"
  "events (tt_period M s) = events s"
  "test_count (tt_period M s) = test_count s"
  by (simp_all add: tt_period_def dut_eval_def period_def Let_def)

lemma print_simps [simp]:
  "dut_in (print l s) = dut_in s"
  "dut_st (print l s) = dut_st s"
  "pass (print l s) = pass s"
  "events (print l s) = events s @ [Cout l]"
  by (simp_all add: print_def)

lemma print_more [simp]:
  "test_count (print l s) = test_count s"
  "sim_time (print l r) = sim_time r"
  by (simp_all add: print_def)

lemma loop_in:
  assumes "\<And>x s. dut_in (body x s) = (dut_in s)\<lparr>clock := 0\<rparr>"
  shows "dut_in (for_loop 0 n body s) = (if 0 < n then (dut_in s)\<lparr>clock := 0\<rparr> else dut_in s)"
proof -
  have "([0..n - 1] = []) = (\<not> 0 < n)"
    by auto
  then show ?thesis
    by (simp add: for_loop_fold periodic_fold_in [of body, OF assms])
qed

lemma loop_st:
  assumes "\<And>x s. dut_in (body x s) = (dut_in s)\<lparr>clock := 0\<rparr>"
    and "\<And>x s. dut_st (body x s) = period e (dut_in s) (dut_st s)"
  shows "dut_st (for_loop 0 n body s) = (period e (dut_in s) ^^ nat n) (dut_st s)"
  by (simp add: for_loop_fold periodic_fold_st [of body e, OF assms])

lemma loop_pass:
  assumes "\<And>x s. dut_in (body x s) = (dut_in s)\<lparr>clock := 0\<rparr>"
    and "\<And>x s. dut_st (body x s) = period e (dut_in s) (dut_st s)"
    and "\<And>x s. pass (body x s) = (pass s \<and> ok x (dut_st (body x s)))"
  shows "pass (for_loop 0 n body s)
     = (pass s \<and> list_all2 ok [0..n - 1] (run_periods e (replicate (nat n) (dut_in s)) (dut_st s)))"
  by (simp add: for_loop_fold periodic_fold_pass [of body e ok, OF assms])

lemma loop_events:
  assumes "\<And>x s. dut_in (body x s) = (dut_in s)\<lparr>clock := 0\<rparr>"
    and "\<And>x s. dut_st (body x s) = period e (dut_in s) (dut_st s)"
    and "\<And>x s. obs (body x s) = obs s @ lines x (dut_st (body x s))"
  shows "obs (for_loop 0 n body s)
     = obs s @ concat (map2 lines [0..n - 1] (run_periods e (replicate (nat n) (dut_in s)) (dut_st s)))"
  by (simp add: for_loop_fold periodic_fold_events [of body e obs lines, OF assms])

lemma list_all2_eq_map:
  "list_all2 (\<lambda>x y. g y = f x) xs ys \<longleftrightarrow> map g ys = map f xs"
proof -
  have "list_all2 (\<lambda>x y. f x = g y) xs ys \<longleftrightarrow> list_all2 (=) (map f xs) (map g ys)"
    by (simp add: list.rel_map)
  then show ?thesis
    by (auto simp add: list.rel_eq eq_commute [of "g _" "f _"])
qed

lemma list_all2_right:
  "length xs = length ys \<Longrightarrow> list_all2 (\<lambda>x y. P y) xs ys \<longleftrightarrow> list_all P ys"
  by (induction xs ys rule: list_induct2) simp_all

lemma c_rem_nonneg: "0 \<le> a \<Longrightarrow> 0 < b \<Longrightarrow> c_rem a b = a mod b"
  by (cases "a = 0") (simp_all add: c_rem_def)

section \<open>The counter testbench: the loops\<close>

lemma tt_cycle_simps:
  "dut_in (tt_cycle M i s) = (dut_in s)\<lparr>clock := 0\<rparr>"
  "dut_st (tt_cycle M i s) = period (eval M) (dut_in s) (dut_st s)"
  "pass (tt_cycle M i s) = (pass s \<and> count_of M (dut_st (tt_cycle M i s)) = c_rem (i + 1) 10)"
  "test_count (tt_cycle M i s) = test_count s + 1"
  by (simp_all add: tt_cycle_def Let_def)

lemma tt_hold_simps:
  "dut_in (tt_hold M f i s) = (dut_in s)\<lparr>clock := 0\<rparr>"
  "dut_st (tt_hold M f i s) = period (eval M) (dut_in s) (dut_st s)"
  "pass (tt_hold M f i s) = (pass s \<and> count_of M (dut_st (tt_hold M f i s)) = f)"
  "test_count (tt_hold M f i s) = test_count s"
  by (simp_all add: tt_hold_def Let_def)

lemma tt_check_overflow_simps:
  "dut_in (tt_check_overflow M i s) = (dut_in s)\<lparr>clock := 0\<rparr>"
  "dut_st (tt_check_overflow M i s) = period (eval M) (dut_in s) (dut_st s)"
  "pass (tt_check_overflow M i s) = (pass s \<and> overflow_ok M (dut_st (tt_check_overflow M i s)))"
  "test_count (tt_check_overflow M i s) = test_count s"
  by (auto simp add: tt_check_overflow_def overflow_ok_def Let_def)

lemma cycle_expected:
  "map (\<lambda>k. c_rem (k + 1) 10) [0..19] = [1, 2, 3, 4, 5, 6, 7, 8, 9, 0, 1, 2, 3, 4, 5, 6, 7, 8, 9, 0]"
  by code_simp

lemma tt_loop1_pass:
  "pass (for_loop 0 20 (tt_cycle M) s)
     = (pass s \<and> map (count_of M) (run_periods (eval M) (replicate 20 (dut_in s)) (dut_st s))
          = [1, 2, 3, 4, 5, 6, 7, 8, 9, 0, 1, 2, 3, 4, 5, 6, 7, 8, 9, 0])"
  using loop_pass [of "tt_cycle M" "eval M" "\<lambda>k t. count_of M t = c_rem (k + 1) 10" 20 s]
  by (simp add: tt_cycle_simps list_all2_eq_map cycle_expected)

lemma tt_loop1_st:
  "dut_st (for_loop 0 20 (tt_cycle M) s) = (period (eval M) (dut_in s) ^^ 20) (dut_st s)"
  "dut_in (for_loop 0 20 (tt_cycle M) s) = (dut_in s)\<lparr>clock := 0\<rparr>"
  using loop_st [of "tt_cycle M" "eval M" 20 s] loop_in [of "tt_cycle M" 20 s]
  by (simp_all add: tt_cycle_simps)

lemma tt_loop2_pass:
  "pass (for_loop 0 5 (tt_hold M f) s)
     = (pass s \<and> map (count_of M) (run_periods (eval M) (replicate 5 (dut_in s)) (dut_st s))
          = replicate 5 f)"
  using loop_pass [of "tt_hold M f" "eval M" "\<lambda>k t. count_of M t = f" 5 s]
  by (simp add: tt_hold_simps list_all2_eq_map map_replicate_const)

lemma tt_loop2_st:
  "dut_st (for_loop 0 5 (tt_hold M f) s) = (period (eval M) (dut_in s) ^^ 5) (dut_st s)"
  "dut_in (for_loop 0 5 (tt_hold M f) s) = (dut_in s)\<lparr>clock := 0\<rparr>"
  using loop_st [of "tt_hold M f" "eval M" 5 s] loop_in [of "tt_hold M f" 5 s]
  by (simp_all add: tt_hold_simps)

lemma tt_loop4_pass:
  "pass (for_loop 0 10 (tt_check_overflow M) s)
     = (pass s \<and> list_all (overflow_ok M)
          (run_periods (eval M) (replicate 10 (dut_in s)) (dut_st s)))"
  using loop_pass [of "tt_check_overflow M" "eval M" "\<lambda>k. overflow_ok M" 10 s]
  by (simp add: tt_check_overflow_simps list_all2_right)

lemma tt_loop4_st:
  "dut_st (for_loop 0 10 (tt_check_overflow M) s) = (period (eval M) (dut_in s) ^^ 10) (dut_st s)"
  "dut_in (for_loop 0 10 (tt_check_overflow M) s) = (dut_in s)\<lparr>clock := 0\<rparr>"
  using loop_st [of "tt_check_overflow M" "eval M" 10 s] loop_in [of "tt_check_overflow M" 10 s]
  by (simp_all add: tt_check_overflow_simps)

section \<open>The counter testbench: the four tests\<close>

lemma tt_init_simps:
  "dut_in (tt_init M) = tt_inputs 0 0 0"
  "dut_st (tt_init M) = tt_t0 M"
  "pass (tt_init M) = True"
  "events (tt_init M) = []"
  "test_count (tt_init M) = 0"
proof -
  show "dut_in (tt_init M) = tt_inputs 0 0 0"
    by (cases "new_in M") (simp add: tt_init_def tt_inputs_def dut_eval_def Let_def)
  show "dut_st (tt_init M) = tt_t0 M"
    by (cases "new_in M") (simp add: tt_init_def tt_inputs_def tt_t0_def dut_eval_def Let_def)
qed (simp_all add: tt_init_def dut_eval_def Let_def)

lemma tt_test1_simps:
  "dut_in (tt_test1 M s) = (dut_in s)\<lparr>io_enable := 1, io_reset_count := 0, clock := 0\<rparr>"
  "dut_st (tt_test1 M s)
     = (period (eval M) ((dut_in s)\<lparr>io_enable := 1, io_reset_count := 0\<rparr>) ^^ 20) (dut_st s)"
  "pass (tt_test1 M s)
     = (pass s \<and> count_of M (dut_st s) = 0
        \<and> map (count_of M) (run_periods (eval M)
              (replicate 20 ((dut_in s)\<lparr>io_enable := 1, io_reset_count := 0\<rparr>)) (dut_st s))
          = [1, 2, 3, 4, 5, 6, 7, 8, 9, 0, 1, 2, 3, 4, 5, 6, 7, 8, 9, 0])"
  by (auto simp add: tt_test1_def Let_def tt_loop1_st tt_loop1_pass)

lemma tt_test2_simps:
  "dut_in (tt_test2 M s) = (dut_in s)\<lparr>io_enable := 0, clock := 0\<rparr>"
  "dut_st (tt_test2 M s) = (period (eval M) ((dut_in s)\<lparr>io_enable := 0\<rparr>) ^^ 5) (dut_st s)"
  "pass (tt_test2 M s)
     = (pass s \<and> map (count_of M) (run_periods (eval M)
              (replicate 5 ((dut_in s)\<lparr>io_enable := 0\<rparr>)) (dut_st s))
          = replicate 5 (count_of M (dut_st s)))"
  by (simp_all add: tt_test2_def Let_def tt_loop2_st tt_loop2_pass)

lemma tt_test3_simps:
  "dut_in (tt_test3 M s) = (dut_in s)\<lparr>io_enable := 1, clock := 0, io_reset_count := 0\<rparr>"
  "dut_st (tt_test3 M s)
     = period (eval M) ((dut_in s)\<lparr>io_enable := 1, io_reset_count := 1\<rparr>) (dut_st s)"
  "pass (tt_test3 M s) = (pass s \<and> count_of M (dut_st (tt_test3 M s)) = 0)"
  by (simp_all add: tt_test3_def Let_def)

lemma tt_test4_simps:
  "dut_in (tt_test4 M s) = (dut_in s)\<lparr>io_reset_count := 0, clock := 0\<rparr>"
  "dut_st (tt_test4 M s)
     = (period (eval M) ((dut_in s)\<lparr>clock := 0, io_reset_count := 0\<rparr>) ^^ 10)
         (period (eval M) ((dut_in s)\<lparr>io_reset_count := 1\<rparr>) (dut_st s))"
  "pass (tt_test4 M s)
     = (pass s \<and> list_all (overflow_ok M) (run_periods (eval M)
          (replicate 10 ((dut_in s)\<lparr>clock := 0, io_reset_count := 0\<rparr>))
          (period (eval M) ((dut_in s)\<lparr>io_reset_count := 1\<rparr>) (dut_st s))))"
  by (simp_all add: tt_test4_def Let_def tt_loop4_st tt_loop4_pass)


lemma tt_vectors_split:
  "tt_samples M =
     (let e = eval M; t0 = tt_t0 M;
          t20 = (period e (tt_inputs 0 1 0) ^^ 20) t0;
          t25 = (period e (tt_inputs 0 0 0) ^^ 5) t20;
          t26 = period e (tt_inputs 0 1 1) t25;
          t27 = period e (tt_inputs 0 1 1) t26
      in run_periods e (replicate 20 (tt_inputs 0 1 0)) t0
         @ run_periods e (replicate 5 (tt_inputs 0 0 0)) t20
         @ [t26, t27]
         @ run_periods e (replicate 10 (tt_inputs 0 1 0)) t27)"
  by (simp add: tt_samples_def tt_vectors_def run_periods_append Let_def)

lemma tt_after3:
  "pass (tt_test3 M (tt_test2 M (tt_test1 M (tt_init M))))
     = (let e = eval M; t0 = tt_t0 M;
          t20 = (period e (tt_inputs 0 1 0) ^^ 20) t0;
          t25 = (period e (tt_inputs 0 0 0) ^^ 5) t20;
          t26 = period e (tt_inputs 0 1 1) t25
        in count_of M t0 = 0
         \<and> map (count_of M) (run_periods e (replicate 20 (tt_inputs 0 1 0)) t0)
              = [1, 2, 3, 4, 5, 6, 7, 8, 9, 0, 1, 2, 3, 4, 5, 6, 7, 8, 9, 0]
         \<and> map (count_of M) (run_periods e (replicate 5 (tt_inputs 0 0 0)) t20)
              = replicate 5 (count_of M t20)
         \<and> count_of M t26 = 0)"
  by (simp add: tt_test1_simps tt_test2_simps tt_test3_simps tt_init_simps tt_inputs_def Let_def)

lemma tt_tests_pass:
  "pass (tt_tests M)
     = (let e = eval M; t0 = tt_t0 M;
          t20 = (period e (tt_inputs 0 1 0) ^^ 20) t0;
          t25 = (period e (tt_inputs 0 0 0) ^^ 5) t20;
          t26 = period e (tt_inputs 0 1 1) t25;
          t27 = period e (tt_inputs 0 1 1) t26
        in pass (tt_test3 M (tt_test2 M (tt_test1 M (tt_init M))))
         \<and> list_all (overflow_ok M) (run_periods e (replicate 10 (tt_inputs 0 1 0)) t27))"
  by (simp add: tt_tests_def tt_test4_simps [of M] tt_test1_simps(1,2) tt_test2_simps(1,2)
      tt_test3_simps(1,2) tt_init_simps tt_inputs_def Let_def)

lemma tt_tests_st:
  "dut_st (tt_tests M) = fold (period (eval M)) tt_vectors (tt_t0 M)"
  by (simp add: tt_tests_def tt_test4_simps tt_test1_simps(1,2) tt_test2_simps(1,2)
      tt_test3_simps(1,2) tt_init_simps tt_inputs_def tt_vectors_def)

section \<open>The counter testbench: the count checks and the oracle\<close>

lemma oracle_26:
  "oracle_counts 0 (take 26 tt_vectors)
     = [1, 2, 3, 4, 5, 6, 7, 8, 9, 0, 1, 2, 3, 4, 5, 6, 7, 8, 9, 0] @ replicate 5 0 @ [0]"
  by code_simp

lemma tt_count_checks:
  "pass (tt_test3 M (tt_test2 M (tt_test1 M (tt_init M))))
     = (count_of M (tt_t0 M) = 0
        \<and> map (count_of M) (take 26 (tt_samples M)) = oracle_counts 0 (take 26 tt_vectors))"
proof -
  define e where "e = eval M"
  define t20 where "t20 = (period e (tt_inputs 0 1 0) ^^ 20) (tt_t0 M)"
  define t25 where "t25 = (period e (tt_inputs 0 0 0) ^^ 5) t20"
  define t26 where "t26 = period e (tt_inputs 0 1 1) t25"
  define S1 where "S1 = run_periods e (replicate 20 (tt_inputs 0 1 0)) (tt_t0 M)"
  define S2 where "S2 = run_periods e (replicate 5 (tt_inputs 0 0 0)) t20"
  define L :: "int list" where "L = [1, 2, 3, 4, 5, 6, 7, 8, 9, 0, 1, 2, 3, 4, 5, 6, 7, 8, 9, 0]"
  have len: "length S1 = 20" "length S2 = 5" "length L = 20"
    by (simp_all add: S1_def S2_def L_def)
  have "last S1 = fold (period e) (replicate 20 (tt_inputs 0 1 0)) (tt_t0 M)"
    unfolding S1_def by (rule last_run_periods) simp
  moreover have "S1 \<noteq> []"
    using len by auto
  ultimately have t20: "count_of M t20 = last (map (count_of M) S1)"
    by (simp add: last_map t20_def)
  have lastL: "last L = 0"
    by (simp add: L_def)
  have T: "take 26 (tt_samples M) = S1 @ S2 @ [t26]"
    using len
    by (simp add: tt_vectors_split Let_def e_def [symmetric] t20_def [symmetric]
        t25_def [symmetric] t26_def [symmetric] S1_def [symmetric] S2_def [symmetric])
  have P: "pass (tt_test3 M (tt_test2 M (tt_test1 M (tt_init M))))
     = (count_of M (tt_t0 M) = 0 \<and> map (count_of M) S1 = L
        \<and> map (count_of M) S2 = replicate 5 (count_of M t20) \<and> count_of M t26 = 0)"
    by (simp add: tt_after3 Let_def e_def [symmetric] t20_def [symmetric]
        t25_def [symmetric] t26_def [symmetric] S1_def [symmetric] S2_def [symmetric]
        L_def [symmetric])
  have "(map (count_of M) S1 = L \<and> map (count_of M) S2 = replicate 5 (count_of M t20)
          \<and> count_of M t26 = 0)
      = (map (count_of M) (S1 @ S2 @ [t26]) = L @ replicate 5 0 @ [0])"
    using len t20 lastL by auto
  then show ?thesis
    by (simp only: P T oracle_26 L_def [symmetric])
qed

section \<open>The counter testbench: the verdict of a run\<close>

lemma tt_main_simps:
  "pass (fst (tt_main M)) = pass (tt_tests M)"
  "snd (tt_main M) = (if pass (tt_tests M) then 0 else 1)"
  by (simp_all add: tt_main_def Let_def)

lemma tt_samples_drop:
  "drop 27 (tt_samples M)
     = (let e = eval M; t0 = tt_t0 M;
          t20 = (period e (tt_inputs 0 1 0) ^^ 20) t0;
          t25 = (period e (tt_inputs 0 0 0) ^^ 5) t20;
          t26 = period e (tt_inputs 0 1 1) t25;
          t27 = period e (tt_inputs 0 1 1) t26
        in run_periods e (replicate 10 (tt_inputs 0 1 0)) t27)"
  by (simp add: tt_vectors_split Let_def)

lemma tt_test4_verdict:
  "pass (tt_tests M)
     = (pass (tt_test3 M (tt_test2 M (tt_test1 M (tt_init M))))
        \<and> list_all (overflow_ok M) (drop 27 (tt_samples M)))"
  by (simp add: tt_tests_pass tt_samples_drop Let_def)

lemma tt_verdict:
  "pass (tt_tests M)
     = (count_of M (tt_t0 M) = 0
        \<and> map (count_of M) (take 26 (tt_samples M)) = oracle_counts 0 (take 26 tt_vectors)
        \<and> list_all (overflow_ok M) (drop 27 (tt_samples M)))"
  by (simp add: tt_test4_verdict tt_count_checks)

lemma seconds_list_all2:
  "list_all2 R xs ys \<Longrightarrow> list_all2 R (seconds xs) (seconds ys)"
  by (induction xs arbitrary: ys rule: seconds.induct) (auto simp add: list_all2_Cons1)

lemma tt_seconds:
  "seconds (run_evals (eval M) tt_eval_inputs (new_st M)) = tt_t0 M # tt_samples M"
  by (simp add: tt_eval_inputs_def tt_t0_def tt_samples_def seconds_run_evals)

section \<open>The counter testbench: the expected count\<close>

text \<open>
  Claim C4, as stated, fails: the count is not compared with anything after the
  eleven periods of the fourth test (a second edge with the count reset, then ten
  enabled edges).  A counter that counts correctly until its count is first reset and
  holds 0 from then on passes the whole run and \<open>main\<close> returns 0, although after the
  last ten enabled edges it reads 0 each time where the oracle expects 1 to 9 and 0.
\<close>

theorem tt_count_unchecked_counterexample:
  "pass (fst (tt_main tt_halting)) \<and> snd (tt_main tt_halting) = 0
   \<and> drop 27 tt_vectors = replicate 10 (tt_inputs 0 1 0)
   \<and> map (count_of tt_halting) (drop 27 (tt_samples tt_halting)) = [0, 0, 0, 0, 0, 0, 0, 0, 0, 0]
   \<and> drop 27 (oracle_counts 0 tt_vectors) = [1, 2, 3, 4, 5, 6, 7, 8, 9, 0]"
  by code_simp

text \<open>
  Claim C4, amended.  The count checks of the counter testbench are the check before
  the first edge and the checks after each period of the first three tests (20 enabled
  edges, 5 disabled edges, one edge with the count reset).  They give the verdict that
  the oracle of the specification gives on these 26 periods: the count read before
  the first edge is 0, and the count read after each period is the oracle's expected
  count, which is 0 after an edge with the count reset, the previous expected count
  plus one modulo ten after an enabled edge, and the previous expected count after a
  disabled edge.  In the second test the source compares with \<open>frozen_count\<close>, the
  count read when the enable was dropped; the last check of the first test has
  compared that count with the expected one, so the verdict is the same.  The fourth
  test adds no count check: the verdict of the run is the verdict of these checks,
  cleared only when after one of the last ten periods the count reads 9 while the
  overflow does not read 1; the count read after the 27th period is not looked at.
\<close>

theorem tt_expected_count:
  "pass (tt_test3 M (tt_test2 M (tt_test1 M (tt_init M))))
     = (count_of M (tt_t0 M) = 0
        \<and> map (count_of M) (take 26 (tt_samples M)) = oracle_counts 0 (take 26 tt_vectors))
   \<and> take 26 tt_vectors
     = replicate 20 (tt_inputs 0 1 0) @ replicate 5 (tt_inputs 0 0 0) @ [tt_inputs 0 1 1]
   \<and> oracle_count p (tt_inputs 0 1 1) = 0
   \<and> oracle_count p (tt_inputs 0 1 0) = (p + 1) mod 10
   \<and> oracle_count p (tt_inputs 0 0 0) = p
   \<and> pass (fst (tt_main M))
     = (count_of M (tt_t0 M) = 0
        \<and> map (count_of M) (take 26 (tt_samples M)) = oracle_counts 0 (take 26 tt_vectors)
        \<and> list_all (overflow_ok M) (drop 27 (tt_samples M)))
   \<and> length (tt_samples M) = 37"
proof -
  have "take 26 tt_vectors
     = replicate 20 (tt_inputs 0 1 0) @ replicate 5 (tt_inputs 0 0 0) @ [tt_inputs 0 1 1]"
    by (simp add: tt_vectors_def)
  moreover have "oracle_count p (tt_inputs 0 1 1) = 0"
    "oracle_count p (tt_inputs 0 1 0) = (p + 1) mod 10"
    "oracle_count p (tt_inputs 0 0 0) = p"
    by (simp_all add: oracle_count_def tt_inputs_def)
  moreover have "length (tt_samples M) = 37"
    by (simp add: tt_samples_def tt_vectors_def)
  moreover have "pass (fst (tt_main M)) = pass (tt_tests M)"
    by (rule tt_main_simps)
  ultimately show ?thesis
    using tt_count_checks [of M] tt_verdict [of M] by simp
qed

theorem tt_expected_count_witness:
  "pass (tt_test3 tt_good (tt_test2 tt_good (tt_test1 tt_good (tt_init tt_good))))
   \<and> \<not> pass (tt_test3 tt_stuck (tt_test2 tt_stuck (tt_test1 tt_stuck (tt_init tt_stuck))))
   \<and> pass (fst (tt_main tt_good)) \<and> \<not> pass (fst (tt_main tt_stuck))"
proof -
  have g: "count_of tt_good (tt_t0 tt_good) = 0
      \<and> map (count_of tt_good) (take 26 (tt_samples tt_good)) = oracle_counts 0 (take 26 tt_vectors)
      \<and> list_all (overflow_ok tt_good) (drop 27 (tt_samples tt_good))"
    by code_simp
  have b: "count_of tt_stuck (tt_t0 tt_stuck) \<noteq> 0"
    by code_simp
  show ?thesis
    using g b tt_expected_count [of tt_good 0] tt_expected_count [of tt_stuck 0] by blast
qed

section \<open>The counter testbench: the overflow output\<close>

text \<open>
  Claim C2, as stated, fails: a counter that counts correctly and holds its overflow
  output at 1 on every cycle passes the whole run.  After the first period the count
  reads 1 and the overflow reads 1, no line \<open>FAILED: Overflow not set at count=9\<close> is
  printed, the verdict stays true and \<open>main\<close> returns 0.
\<close>

theorem tt_overflow_always_counterexample:
  "pass (fst (tt_main tt_always)) \<and> snd (tt_main tt_always) = 0
   \<and> count_of tt_always (tt_samples tt_always ! 0) = 1
   \<and> overflow_of tt_always (tt_samples tt_always ! 0) = 1
   \<and> map (overflow_of tt_always) (tt_samples tt_always) = replicate 37 1
   \<and> Cout Failed_overflow \<notin> set (events (fst (tt_main tt_always)))"
  by code_simp

text \<open>
  Claim C2, amended.  The overflow output is checked in the ten enabled periods of the
  fourth test only (the last ten of the 37 periods), and one way only: the verdict
  after the fourth test is the verdict after the third, cleared when after one of
  these periods the count reads 9 and the overflow does not read 1.  The overflow
  read while the count is not 9 is not compared with anything.
\<close>

theorem tt_overflow_check:
  "pass (tt_tests M)
     = (pass (tt_test3 M (tt_test2 M (tt_test1 M (tt_init M))))
        \<and> list_all (overflow_ok M) (drop 27 (tt_samples M)))
   \<and> overflow_ok M t = (count_of M t = 9 \<longrightarrow> overflow_of M t = 1)
   \<and> drop 27 tt_vectors = replicate 10 (tt_inputs 0 1 0)"
proof -
  have "drop 27 tt_vectors = replicate 10 (tt_inputs 0 1 0)"
    by (simp add: tt_vectors_def)
  moreover have "overflow_ok M t = (count_of M t = 9 \<longrightarrow> overflow_of M t = 1)"
    by (auto simp add: overflow_ok_def)
  ultimately show ?thesis
    using tt_test4_verdict [of M] by blast
qed

theorem tt_overflow_check_witness:
  "pass (tt_tests tt_good) \<and> \<not> pass (tt_tests tt_never)
   \<and> count_of tt_never (tt_samples tt_never ! 35) = 9
   \<and> overflow_of tt_never (tt_samples tt_never ! 35) = 0"
proof -
  have g: "pass (tt_test3 tt_good (tt_test2 tt_good (tt_test1 tt_good (tt_init tt_good))))
      \<and> list_all (overflow_ok tt_good) (drop 27 (tt_samples tt_good))"
    by code_simp
  have n: "\<not> list_all (overflow_ok tt_never) (drop 27 (tt_samples tt_never))"
    by code_simp
  have v: "count_of tt_never (tt_samples tt_never ! 35) = 9
      \<and> overflow_of tt_never (tt_samples tt_never ! 35) = 0"
    by code_simp
  show ?thesis
    using g n v tt_overflow_check [of tt_good "(0, 9, 1)"] tt_overflow_check [of tt_never "(0, 9, 0)"]
    by blast
qed

text \<open>
  Claim C10.  Two simulated counters that, at every evaluation of the run, read the
  same count, and the same overflow wherever the count reads 9, get the same verdict
  and the same exit status, whatever their overflow outputs read elsewhere.
\<close>

theorem tt_verdict_ignores_overflow_elsewhere:
  assumes "list_all2 (\<lambda>t1 t2. count_of M1 t1 = count_of M2 t2
              \<and> (count_of M1 t1 = 9 \<longrightarrow> overflow_of M1 t1 = overflow_of M2 t2))
            (run_evals (eval M1) tt_eval_inputs (new_st M1))
            (run_evals (eval M2) tt_eval_inputs (new_st M2))"
  shows "pass (fst (tt_main M1)) = pass (fst (tt_main M2)) \<and> snd (tt_main M1) = snd (tt_main M2)"
proof -
  let ?R = "\<lambda>t1 t2. count_of M1 t1 = count_of M2 t2
              \<and> (count_of M1 t1 = 9 \<longrightarrow> overflow_of M1 t1 = overflow_of M2 t2)"
  have "list_all2 ?R (tt_t0 M1 # tt_samples M1) (tt_t0 M2 # tt_samples M2)"
    using seconds_list_all2 [OF assms] by (simp only: tt_seconds)
  then have t0: "count_of M1 (tt_t0 M1) = count_of M2 (tt_t0 M2)"
    and S: "list_all2 ?R (tt_samples M1) (tt_samples M2)"
    by simp_all
  have "list_all2 ?R (take 26 (tt_samples M1)) (take 26 (tt_samples M2))"
    using S by (rule list_all2_takeI)
  then have "list_all2 (\<lambda>t1 t2. count_of M1 t1 = count_of M2 t2)
      (take 26 (tt_samples M1)) (take 26 (tt_samples M2))"
    by (rule list_all2_mono) simp
  then have c: "map (count_of M1) (take 26 (tt_samples M1))
      = map (count_of M2) (take 26 (tt_samples M2))"
    by (induction rule: list_all2_induct) simp_all
  have "list_all2 ?R (drop 27 (tt_samples M1)) (drop 27 (tt_samples M2))"
    using S by (rule list_all2_dropI)
  then have "list_all2 (\<lambda>t1 t2. overflow_ok M1 t1 = overflow_ok M2 t2)
      (drop 27 (tt_samples M1)) (drop 27 (tt_samples M2))"
    by (rule list_all2_mono) (auto simp add: overflow_ok_def)
  then have o: "list_all (overflow_ok M1) (drop 27 (tt_samples M1))
      = list_all (overflow_ok M2) (drop 27 (tt_samples M2))"
    by (induction rule: list_all2_induct) simp_all
  have "pass (tt_tests M1) = pass (tt_tests M2)"
    by (simp only: tt_verdict t0 c o)
  then show ?thesis
    by (simp add: tt_main_simps)
qed

theorem tt_verdict_ignores_overflow_elsewhere_witness:
  "map (overflow_of tt_good) (run_evals (eval tt_good) tt_eval_inputs (new_st tt_good))
     \<noteq> map (overflow_of tt_early) (run_evals (eval tt_early) tt_eval_inputs (new_st tt_early))
   \<and> pass (fst (tt_main tt_good)) = pass (fst (tt_main tt_early))
   \<and> snd (tt_main tt_good) = snd (tt_main tt_early)"
proof -
  have h: "list_all2 (\<lambda>t1 t2. count_of tt_good t1 = count_of tt_early t2
              \<and> (count_of tt_good t1 = 9 \<longrightarrow> overflow_of tt_good t1 = overflow_of tt_early t2))
            (run_evals (eval tt_good) tt_eval_inputs (new_st tt_good))
            (run_evals (eval tt_early) tt_eval_inputs (new_st tt_early))"
    by code_simp
  have d: "map (overflow_of tt_good) (run_evals (eval tt_good) tt_eval_inputs (new_st tt_good))
     \<noteq> map (overflow_of tt_early) (run_evals (eval tt_early) tt_eval_inputs (new_st tt_early))"
    by code_simp
  show ?thesis
    using d tt_verdict_ignores_overflow_elsewhere [OF h] by blast
qed

section \<open>The register testbench: what a run computes\<close>

lemma reg_loop_unroll:
  "reg_loop M s = reg_case M 3 (reg_case M 2 (reg_case M 1 (reg_case M 0 s)))"
  by (simp add: reg_loop_def for_loop.simps)

lemma dump_simps [simp]:
  "dut_in (dump s) = dut_in s"
  "dut_st (dump s) = dut_st s"
  "pass (dump s) = pass s"
  "events (dump s) = events s @ [Trace_dump (sim_time s)]"
  "sim_time (dump s) = sim_time s + 1"
  by (simp_all add: dump_def)

lemma dut_eval_simps [simp]:
  "dut_in (dut_eval M s) = dut_in s"
  "dut_st (dut_eval M s) = eval M (dut_in s) (dut_st s)"
  "pass (dut_eval M s) = pass s"
  "events (dut_eval M s) = events s"
  by (simp_all add: dut_eval_def)

lemma dut_eval_more [simp]:
  "sim_time (dut_eval M r) = sim_time r"
  "test_count (dut_eval M s) = test_count s"
  by (simp_all add: dut_eval_def)

lemma reg_reset_simps:
  "dut_in (reg_reset M (reg_start M))
     = \<lparr>clock = 0, reset = 0, io_reset = 1, io_d = io_d (new_in M)\<rparr>"
  "dut_st (reg_reset M (reg_start M)) = reg_t0 M"
  "pass (reg_reset M (reg_start M)) = True"
  "events (reg_reset M (reg_start M)) = [Trace_open, Trace_dump 0, Trace_dump 1]"
  "sim_time (reg_reset M (reg_start M)) = 2"
  by (cases "new_in M";
      simp add: reg_reset_def reg_start_def reg_t0_def reg_reset_inputs_def Let_def)+

lemma reg_case_simps:
  "dut_in (reg_case M i s)
     = (dut_in s)\<lparr>io_reset := of_bool (io_reset_tc (test_cases ! nat i)),
          io_d := d_tc (test_cases ! nat i), clock := 0\<rparr>"
  "dut_st (reg_case M i s)
     = period (eval M) ((dut_in s)\<lparr>io_reset := of_bool (io_reset_tc (test_cases ! nat i)),
          io_d := d_tc (test_cases ! nat i)\<rparr>) (dut_st s)"
  "pass (reg_case M i s)
     = (pass s \<and> reg_q M (dut_st (reg_case M i s)) = uint (expected_q (test_cases ! nat i)))"
  "events (reg_case M i s)
     = events s @ [Trace_dump (sim_time s), Trace_dump (sim_time s + 1)]
       @ reg_report M (i, test_cases ! nat i, dut_st (reg_case M i s))"
  "sim_time (reg_case M i s) = sim_time s + 2"
  by (simp_all add: reg_case_def reg_q_def reg_report_def period_def Let_def)

lemma reg_samples_unroll:
  "reg_samples M =
     (let e = eval M;
          t1 = period e (reg_vector (test_cases ! 0)) (reg_t0 M);
          t2 = period e (reg_vector (test_cases ! 1)) t1;
          t3 = period e (reg_vector (test_cases ! 2)) t2;
          t4 = period e (reg_vector (test_cases ! 3)) t3
      in [t1, t2, t3, t4])"
  by (simp add: reg_samples_def test_cases_def Let_def)

lemma reg_loop_st:
  "dut_st (reg_loop M (reg_reset M (reg_start M)))
     = fold (period (eval M)) (map reg_vector test_cases) (reg_t0 M)"
  by (simp add: reg_loop_unroll reg_case_simps reg_reset_simps test_cases_def reg_vector_def)

lemma reg_loop_pass:
  "pass (reg_loop M (reg_reset M (reg_start M)))
     = (map (reg_q M) (reg_samples M) = map (\<lambda>tc. uint (expected_q tc)) test_cases)"
  by (simp add: reg_loop_unroll reg_case_simps reg_reset_simps reg_samples_unroll Let_def
      reg_vector_def) (auto simp add: test_cases_def)

lemma reg_loop_events:
  "events (reg_loop M (reg_reset M (reg_start M)))
     = [Trace_open, Trace_dump 0, Trace_dump 1]
       @ concat (map (\<lambda>r. [Trace_dump (2 + 2 * word_of_int (fst r)), Trace_dump (3 + 2 * word_of_int (fst r))]
                          @ reg_report M r) (reg_checks M))"
  by (simp add: reg_loop_unroll reg_case_simps reg_reset_simps reg_samples_unroll Let_def
      reg_vector_def reg_checks_def upto_rec1 test_cases_def)

lemma reg_main_simps:
  "pass (fst (reg_main M)) = pass (reg_loop M (reg_reset M (reg_start M)))"
  "snd (reg_main M) = (if pass (reg_loop M (reg_reset M (reg_start M))) then 0 else 1)"
  "events (fst (reg_main M))
     = events (reg_loop M (reg_reset M (reg_start M)))
       @ [Trace_close, Delete_dut,
          Cout (if pass (reg_loop M (reg_reset M (reg_start M))) then Reg_passed else Reg_failed)]"
  by (simp_all add: reg_main_def Let_def)

lemma reg_expected_oracle:
  "map (\<lambda>tc. uint (expected_q tc)) test_cases = map (reg_oracle \<circ> reg_vector) test_cases"
  by (simp add: test_cases_def reg_oracle_def reg_vector_def)

lemma reg_couts:
  "filter is_cout (events (reg_loop M (reg_reset M (reg_start M))))
     = concat (map (reg_report M) (reg_checks M))"
  by (simp add: reg_loop_events) (simp add: reg_checks_def reg_samples_unroll Let_def upto_rec1
      test_cases_def is_cout_def reg_report_def)

lemma reg_dumps:
  "filter is_dump (events (reg_loop M (reg_reset M (reg_start M))))
     = map Trace_dump [0, 1, 2, 3, 4, 5, 6, 7, 8, 9]"
  by (simp add: reg_loop_events) (simp add: reg_checks_def reg_samples_unroll Let_def upto_rec1
      test_cases_def is_dump_def reg_report_def)

lemma reg_no_close:
  "Trace_close \<notin> set (events (reg_loop M (reg_reset M (reg_start M))))"
  "Delete_dut \<notin> set (events (reg_loop M (reg_reset M (reg_start M))))"
  by (simp_all add: reg_loop_events) (simp_all add: reg_checks_def reg_samples_unroll Let_def upto_rec1
      test_cases_def reg_report_def)

section \<open>The adder testbench: the end of a run\<close>

lemma adder_vectors_all:
  "set adder_vectors = {0..15} \<times> {0..15}" "distinct adder_vectors" "length adder_vectors = 256"
  by (simp_all add: adder_vectors_def distinct_product)

lemma adder_init_simps:
  "dut_in (adder_init M) = new_in M" "dut_st (adder_init M) = new_st M"
  "pass (adder_init M) = True" "events (adder_init M) = []"
  by (simp_all add: adder_init_def)

lemma adder_main_simps:
  "snd (adder_main M) = 0"
  "pass (fst (adder_main M)) = pass (adder_loops M (adder_init M))"
  "events (fst (adder_main M))
     = events (adder_loops M (adder_init M))
       @ (if pass (adder_loops M (adder_init M)) then [Cout Test_passed] else []) @ [Delete_dut]"
  by (simp_all add: adder_main_def Let_def)

section \<open>The adder testbench: every pair is checked\<close>

text \<open>
  Claim C3.  The adder testbench visits the 256 pairs of \<open>[0,16) \<times> [0,16)\<close>, each
  once, in the order of the two loops; for each pair it compares the \<open>io_c\<close> read after
  the evaluation with \<open>(a + b) mod 16\<close> (the source's \<open>(a + b) & 0xF\<close>), prints a line
  for exactly the pairs where they differ, and ends with the verdict true exactly when
  no pair differs.  The expected value is 0 for \<open>7 + 9\<close> and 5 for \<open>3 + 2\<close>.
\<close>

theorem adder_checks_all_pairs:
  "set adder_vectors = {0..15} \<times> {0..15} \<and> distinct adder_vectors \<and> length adder_vectors = 256
   \<and> map (\<lambda>r. (fst r, fst (snd r))) (adder_trace M (new_in M, new_st M) adder_vectors)
       = adder_vectors
   \<and> events (adder_loops M (adder_init M))
       = map adder_report (filter adder_mismatch (adder_trace M (new_in M, new_st M) adder_vectors))
   \<and> pass (adder_loops M (adder_init M))
       = (filter adder_mismatch (adder_trace M (new_in M, new_st M) adder_vectors) = [])
   \<and> adder_mismatch (a, b, c) = (c \<noteq> (a + b) mod 16)
   \<and> adder_report (a, b, c) = Cout (Test_failed a b c ((a + b) mod 16))
   \<and> expected_c a b = (a + b) mod 16 \<and> expected_c 7 9 = 0 \<and> expected_c 3 2 = 5"
  using adder_vectors_all adder_trace_vectors [of M "(new_in M, new_st M)" adder_vectors]
    adder_fold_events [of M adder_vectors "adder_init M"]
    adder_fold_pass [of M adder_vectors "adder_init M"]
  by (simp add: adder_loops_fold adder_init_simps adder_mismatch_def adder_report_def
      expected_c_mod)

theorem adder_checks_all_pairs_witness:
  "pass (adder_loops adder_good (adder_init adder_good))
   \<and> \<not> pass (adder_loops adder_stuck (adder_init adder_stuck))
   \<and> length (events (adder_loops adder_stuck (adder_init adder_stuck))) = 240"
proof -
  have g: "filter adder_mismatch
      (adder_trace adder_good (new_in adder_good, new_st adder_good) adder_vectors) = []"
    by code_simp
  have b: "length (filter adder_mismatch
      (adder_trace adder_stuck (new_in adder_stuck, new_st adder_stuck) adder_vectors)) = 240"
    by code_simp
  then have b': "filter adder_mismatch
      (adder_trace adder_stuck (new_in adder_stuck, new_st adder_stuck) adder_vectors) \<noteq> []"
    by auto
  show ?thesis
    using g b b' adder_checks_all_pairs [of adder_good 0 0 0]
      adder_checks_all_pairs [of adder_stuck 0 0 0]
    by simp
qed

section \<open>The exit status\<close>

text \<open>
  Claim C1.  The register and the counter testbench return 0 when the verdict is
  true and 1 when it is false.  The adder testbench returns 0 whatever the verdict:
  run on an adder whose output is stuck at zero, it records mismatches and clears the
  verdict, returns 0, and prints no line after the lines of the loop (no summary).
\<close>

theorem exit_status_of_each_testbench:
  "snd (adder_main A) = 0
   \<and> \<not> pass (fst (adder_main adder_stuck)) \<and> snd (adder_main adder_stuck) = 0
   \<and> filter is_cout (events (fst (adder_main adder_stuck)))
       = filter is_cout (events (adder_loops adder_stuck (adder_init adder_stuck)))
   \<and> snd (reg_main R) = (if pass (fst (reg_main R)) then 0 else 1)
   \<and> snd (tt_main T) = (if pass (fst (tt_main T)) then 0 else 1)"
proof -
  have "\<not> pass (fst (adder_main adder_stuck))"
    by code_simp
  then show ?thesis
    by (simp add: adder_main_simps reg_main_simps tt_main_simps is_cout_def)
qed

section \<open>The register testbench: the scenario and the waveform recorder\<close>

text \<open>
  Claim C5.  The table of the register testbench is, in order: reset with expected
  output 0; no reset, data \<open>0xA\<close>, expected \<open>0xA\<close>; reset again, expected 0; and a
  fourth case, no reset, data 5, expected 5.  Each expected output is what the oracle
  gives for the inputs of the case: 0 when \<open>io_reset\<close> is asserted, else the data.  The
  verdict of a run is true exactly when the \<open>io_q\<close> read at the end of the period of
  each case is the expected output, and the lines printed in the loop are those of
  the cases where it is not, with the index of the case.
\<close>

theorem reg_scenario:
  "map (\<lambda>tc. (io_reset_tc tc, d_tc tc, expected_q tc)) test_cases
     = [(True, 0xA, 0), (False, 0xA, 0xA), (True, 0x5, 0), (False, 0x5, 0x5)]
   \<and> map (\<lambda>tc. uint (expected_q tc)) test_cases = map (reg_oracle \<circ> reg_vector) test_cases
   \<and> reg_oracle i = (if io_reset i \<noteq> 0 then 0 else uint (io_d i))
   \<and> pass (fst (reg_main M))
       = (map (reg_q M) (reg_samples M) = map (\<lambda>tc. uint (expected_q tc)) test_cases)
   \<and> filter is_cout (events (reg_loop M (reg_reset M (reg_start M))))
       = concat (map (reg_report M) (reg_checks M))
   \<and> map (\<lambda>r. (fst r, fst (snd r))) (reg_checks M) = zip [0..3] test_cases"
proof -
  have "map (\<lambda>tc. (io_reset_tc tc, d_tc tc, expected_q tc)) test_cases
     = [(True, 0xA, 0), (False, 0xA, 0xA), (True, 0x5, 0), (False, 0x5, 0x5)]"
    by (simp add: test_cases_def)
  moreover have "reg_oracle i = (if io_reset i \<noteq> 0 then 0 else uint (io_d i))"
    by (simp add: reg_oracle_def)
  moreover have "map (\<lambda>r. (fst r, fst (snd r))) (reg_checks M) = zip [0..3] test_cases"
    by (simp add: reg_checks_def reg_samples_unroll Let_def upto_rec1 test_cases_def)
  ultimately show ?thesis
    using reg_expected_oracle reg_loop_pass [of M] reg_couts [of M] reg_main_simps(1) [of M]
    by simp
qed

theorem reg_scenario_witness:
  "pass (fst (reg_main reg_good)) \<and> \<not> pass (fst (reg_main reg_noreset))
   \<and> filter is_cout (events (reg_loop reg_noreset (reg_reset reg_noreset (reg_start reg_noreset))))
       = [Cout (Error_at 2 0 5)]"
proof -
  have g: "map (reg_q reg_good) (reg_samples reg_good) = map (\<lambda>tc. uint (expected_q tc)) test_cases"
    by code_simp
  have b: "map (reg_q reg_noreset) (reg_samples reg_noreset)
      \<noteq> map (\<lambda>tc. uint (expected_q tc)) test_cases"
    by code_simp
  have r: "concat (map (reg_report reg_noreset) (reg_checks reg_noreset)) = [Cout (Error_at 2 0 5)]"
    by code_simp
  have "pass (fst (reg_main reg_good))"
    using g reg_scenario [of "new_in reg_good" reg_good] by blast
  moreover have "\<not> pass (fst (reg_main reg_noreset))"
    using b reg_scenario [of "new_in reg_good" reg_noreset] by blast
  moreover have "filter is_cout
      (events (reg_loop reg_noreset (reg_reset reg_noreset (reg_start reg_noreset))))
       = concat (map (reg_report reg_noreset) (reg_checks reg_noreset))"
    using reg_scenario [of "new_in reg_good" reg_noreset] by blast
  ultimately show ?thesis
    using r by simp
qed

text \<open>
  Claim C9.  In every run of the register testbench, whatever the verdict, the effects
  end with the close of the waveform recorder, the release of the model and the summary
  line, in this order, before \<open>main\<close> returns its status; the ten samples, with the time
  stamps 0 to 9, are all dumped before the close, and nothing is closed or released
  before it.
\<close>

theorem reg_trace_closed:
  "events (fst (reg_main M))
     = events (reg_loop M (reg_reset M (reg_start M)))
       @ [Trace_close, Delete_dut, Cout (if pass (fst (reg_main M)) then Reg_passed else Reg_failed)]
   \<and> filter is_dump (events (reg_loop M (reg_reset M (reg_start M))))
       = map Trace_dump [0, 1, 2, 3, 4, 5, 6, 7, 8, 9]
   \<and> Trace_close \<notin> set (events (reg_loop M (reg_reset M (reg_start M))))
   \<and> Delete_dut \<notin> set (events (reg_loop M (reg_reset M (reg_start M))))
   \<and> snd (reg_main M) = (if pass (fst (reg_main M)) then 0 else 1)"
  using reg_dumps [of M] reg_no_close [of M] by (simp add: reg_main_simps)

theorem reg_trace_closed_witness:
  "events (fst (reg_main reg_noreset))
     = [Trace_open, Trace_dump 0, Trace_dump 1, Trace_dump 2, Trace_dump 3, Trace_dump 4,
        Trace_dump 5, Trace_dump 6, Trace_dump 7, Cout (Error_at 2 0 5), Trace_dump 8,
        Trace_dump 9, Trace_close, Delete_dut, Cout Reg_failed]
   \<and> snd (reg_main reg_noreset) = 1
   \<and> events (fst (reg_main reg_good))
     = [Trace_open, Trace_dump 0, Trace_dump 1, Trace_dump 2, Trace_dump 3, Trace_dump 4,
        Trace_dump 5, Trace_dump 6, Trace_dump 7, Trace_dump 8,
        Trace_dump 9, Trace_close, Delete_dut, Cout Reg_passed]
   \<and> snd (reg_main reg_good) = 0"
proof -
  have b: "events (reg_loop reg_noreset (reg_reset reg_noreset (reg_start reg_noreset)))
     = [Trace_open, Trace_dump 0, Trace_dump 1, Trace_dump 2, Trace_dump 3, Trace_dump 4,
        Trace_dump 5, Trace_dump 6, Trace_dump 7, Cout (Error_at 2 0 5), Trace_dump 8,
        Trace_dump 9]
     \<and> \<not> pass (fst (reg_main reg_noreset))"
    by code_simp
  have g: "events (reg_loop reg_good (reg_reset reg_good (reg_start reg_good)))
     = [Trace_open, Trace_dump 0, Trace_dump 1, Trace_dump 2, Trace_dump 3, Trace_dump 4,
        Trace_dump 5, Trace_dump 6, Trace_dump 7, Trace_dump 8, Trace_dump 9]
     \<and> pass (fst (reg_main reg_good))"
    by code_simp
  show ?thesis
    using b g reg_trace_closed [of reg_noreset] reg_trace_closed [of reg_good]
    by simp
qed

section \<open>A false verdict stays false\<close>










section \<open>The evaluations of a run\<close>

lemma run_evals_append:
  "run_evals e (xs @ ys) t = run_evals e xs t @ run_evals e ys (fold e xs t)"
  by (induction xs arbitrary: t) simp_all

lemma adder_drive_inputs:
  "adder_drive M v d = (adder_inputs v, eval M (adder_inputs v) (snd d))"
  by (cases "fst d") (simp add: adder_drive_def adder_inputs_def Let_def)

lemma adder_fold_evals:
  "snd (fold (adder_drive M) vs d) = fold (eval M) (map adder_inputs vs) (snd d)"
  by (induction vs arbitrary: d) (simp_all add: adder_drive_inputs)

lemma adder_trace_evals:
  "adder_trace M d vs
     = map2 (\<lambda>v t. (fst v, snd v, uint (io_c (outputs M t)))) vs
         (run_evals (eval M) (map adder_inputs vs) (snd d))"
  by (induction vs arbitrary: d) (simp_all add: adder_drive_inputs)

lemma adder_loops_st:
  "dut_st (adder_loops M (adder_init M))
     = fold (eval M) (map adder_inputs adder_vectors) (new_st M)"
proof -
  have "dut_st (adder_loops M (adder_init M))
      = snd (fold (adder_drive M) adder_vectors (new_in M, new_st M))"
    using adder_fold_dut [of M adder_vectors "adder_init M", symmetric]
    by (simp add: adder_loops_fold adder_init_simps)
  then show ?thesis
    by (simp add: adder_fold_evals)
qed

lemma reg_evals_st:
  "dut_st (reg_loop M (reg_reset M (reg_start M))) = fold (eval M) (reg_eval_inputs M) (new_st M)"
  by (simp add: reg_loop_st reg_eval_inputs_def reg_t0_def fold_run_evals [symmetric])

lemma reg_seconds:
  "seconds (run_evals (eval M) (reg_eval_inputs M) (new_st M)) = reg_t0 M # reg_samples M"
proof -
  have "concat (map (period_inputs \<circ> reg_vector) test_cases)
      = concat (map period_inputs (map reg_vector test_cases))"
    by simp
  then show ?thesis
    unfolding reg_eval_inputs_def reg_samples_def
    by (simp only: run_evals_append seconds_run_evals [symmetric])
      (simp add: reg_reset_inputs_def reg_t0_def)
qed

lemma tt_evals_st:
  "dut_st (tt_tests M) = fold (eval M) tt_eval_inputs (new_st M)"
  by (simp add: tt_tests_st tt_eval_inputs_def tt_t0_def fold_run_evals)

section \<open>The lines that report failed comparisons\<close>

lemma map2_right:
  "length xs = length ys \<Longrightarrow> map2 (\<lambda>x y. f y) xs ys = map f ys"
  by (induction xs ys rule: list_induct2) simp_all

lemma map2_cong_left:
  "(\<And>x y. x \<in> set xs \<Longrightarrow> f x y = g x y) \<Longrightarrow> map2 f xs ys = map2 g xs ys"
proof (induction xs arbitrary: ys)
  case Nil
  show ?case by simp
next
  case (Cons x xs)
  then show ?case by (cases ys) simp_all
qed

lemma nth_run_periods:
  "n < length vs \<Longrightarrow> run_periods e vs t ! n = fold (period e) (take (Suc n) vs) t"
proof (induction vs arbitrary: n t)
  case Nil
  then show ?case by simp
next
  case (Cons v vs)
  then show ?case by (cases n) simp_all
qed

lemma tt_failed_simps [simp]:
  "tt_failed (Cout l) = tt_failed_line l"
  "tt_failed Delete_dut = False"
  by (simp_all add: tt_failed_def)

lemma tt_cycle_failed:
  "filter tt_failed (events (tt_cycle M i s))
     = filter tt_failed (events s)
       @ (if count_of M (dut_st (tt_cycle M i s)) \<noteq> c_rem (i + 1) 10
          then [Cout (Failed_cycle i (c_rem (i + 1) 10) (count_of M (dut_st (tt_cycle M i s))))]
          else [])"
  by (simp add: tt_cycle_def Let_def)

lemma tt_hold_failed:
  "filter tt_failed (events (tt_hold M f i s))
     = filter tt_failed (events s)
       @ (if count_of M (dut_st (tt_hold M f i s)) \<noteq> f then [Cout Failed_frozen] else [])"
  by (simp add: tt_hold_def Let_def)

lemma tt_check_overflow_failed:
  "filter tt_failed (events (tt_check_overflow M i s))
     = filter tt_failed (events s)
       @ (if overflow_ok M (dut_st (tt_check_overflow M i s)) then [] else [Cout Failed_overflow])"
  by (simp add: tt_check_overflow_def overflow_ok_def Let_def)

lemma tt_loop1_failed:
  "filter tt_failed (events (for_loop 0 20 (tt_cycle M) s))
     = filter tt_failed (events s)
       @ concat (map2 (\<lambda>k t. if count_of M t \<noteq> (k + 1) mod 10
                              then [Cout (Failed_cycle k ((k + 1) mod 10) (count_of M t))]
                              else [])
           [0..19] (run_periods (eval M) (replicate 20 (dut_in s)) (dut_st s)))"
proof -
  have "map2 (\<lambda>k t. if count_of M t \<noteq> c_rem (k + 1) 10
                              then [Cout (Failed_cycle k (c_rem (k + 1) 10) (count_of M t))]
                              else []) [0..19] ys
      = map2 (\<lambda>k t. if count_of M t \<noteq> (k + 1) mod 10
                              then [Cout (Failed_cycle k ((k + 1) mod 10) (count_of M t))]
                              else []) [0..19] ys" for ys :: "'a list"
    by (rule map2_cong_left) (simp add: c_rem_nonneg)
  note eq = this
  have "filter tt_failed (events (for_loop 0 20 (tt_cycle M) s))
     = filter tt_failed (events s)
       @ concat (map2 (\<lambda>k t. if count_of M t \<noteq> c_rem (k + 1) 10
                              then [Cout (Failed_cycle k (c_rem (k + 1) 10) (count_of M t))]
                              else [])
           [0..19] (run_periods (eval M) (replicate 20 (dut_in s)) (dut_st s)))"
    using loop_events [of "tt_cycle M" "eval M" "\<lambda>s. filter tt_failed (events s)"
        "\<lambda>k t. if count_of M t \<noteq> c_rem (k + 1) 10
               then [Cout (Failed_cycle k (c_rem (k + 1) 10) (count_of M t))] else []" 20 s]
    by (simp add: tt_cycle_simps tt_cycle_failed)
  then show ?thesis
    by (simp only: eq)
qed

lemma tt_loop2_failed:
  "filter tt_failed (events (for_loop 0 5 (tt_hold M f) s))
     = filter tt_failed (events s)
       @ concat (map (\<lambda>t. if count_of M t \<noteq> f then [Cout Failed_frozen] else [])
           (run_periods (eval M) (replicate 5 (dut_in s)) (dut_st s)))"
  using loop_events [of "tt_hold M f" "eval M" "\<lambda>s. filter tt_failed (events s)"
        "\<lambda>k t. if count_of M t \<noteq> f then [Cout Failed_frozen] else []" 5 s]
  by (simp add: tt_hold_simps tt_hold_failed map2_right)

lemma tt_loop4_failed:
  "filter tt_failed (events (for_loop 0 10 (tt_check_overflow M) s))
     = filter tt_failed (events s)
       @ concat (map (\<lambda>t. if overflow_ok M t then [] else [Cout Failed_overflow])
           (run_periods (eval M) (replicate 10 (dut_in s)) (dut_st s)))"
  using loop_events [of "tt_check_overflow M" "eval M" "\<lambda>s. filter tt_failed (events s)"
        "\<lambda>k t. if overflow_ok M t then [] else [Cout Failed_overflow]" 10 s]
  by (simp add: tt_check_overflow_simps tt_check_overflow_failed map2_right)

lemma tt_test_failed:
  "filter tt_failed (events (tt_test1 M s))
     = filter tt_failed (events s)
       @ (if count_of M (dut_st s) \<noteq> 0 then [Cout (Failed_initial (count_of M (dut_st s)))] else [])
       @ concat (map2 (\<lambda>k t. if count_of M t \<noteq> (k + 1) mod 10
                              then [Cout (Failed_cycle k ((k + 1) mod 10) (count_of M t))]
                              else [])
           [0..19] (run_periods (eval M)
              (replicate 20 ((dut_in s)\<lparr>io_enable := 1, io_reset_count := 0\<rparr>)) (dut_st s)))"
  "filter tt_failed (events (tt_test2 M s))
     = filter tt_failed (events s)
       @ concat (map (\<lambda>t. if count_of M t \<noteq> count_of M (dut_st s) then [Cout Failed_frozen] else [])
           (run_periods (eval M) (replicate 5 ((dut_in s)\<lparr>io_enable := 0\<rparr>)) (dut_st s)))"
  "filter tt_failed (events (tt_test3 M s))
     = filter tt_failed (events s)
       @ (if count_of M (dut_st (tt_test3 M s)) \<noteq> 0 then [Cout Failed_reset] else [])"
  "filter tt_failed (events (tt_test4 M s))
     = filter tt_failed (events s)
       @ concat (map (\<lambda>t. if overflow_ok M t then [] else [Cout Failed_overflow])
           (run_periods (eval M) (replicate 10 ((dut_in s)\<lparr>clock := 0, io_reset_count := 0\<rparr>))
              (period (eval M) ((dut_in s)\<lparr>io_reset_count := 1\<rparr>) (dut_st s))))"
  by (simp_all add: tt_test1_def tt_test2_def tt_test3_def tt_test4_def Let_def
      tt_loop1_failed tt_loop2_failed tt_loop4_failed)

lemma tt_samples_parts:
  "take 20 (tt_samples M) = run_periods (eval M) (replicate 20 (tt_inputs 0 1 0)) (tt_t0 M)"
  "take 5 (drop 20 (tt_samples M))
     = run_periods (eval M) (replicate 5 (tt_inputs 0 0 0))
         ((period (eval M) (tt_inputs 0 1 0) ^^ 20) (tt_t0 M))"
  "tt_samples M ! 19 = (period (eval M) (tt_inputs 0 1 0) ^^ 20) (tt_t0 M)"
  "tt_samples M ! 25
     = period (eval M) (tt_inputs 0 1 1)
         ((period (eval M) (tt_inputs 0 0 0) ^^ 5)
            ((period (eval M) (tt_inputs 0 1 0) ^^ 20) (tt_t0 M)))"
proof -
  show "take 20 (tt_samples M) = run_periods (eval M) (replicate 20 (tt_inputs 0 1 0)) (tt_t0 M)"
    by (simp add: tt_vectors_split Let_def)
  show "take 5 (drop 20 (tt_samples M))
     = run_periods (eval M) (replicate 5 (tt_inputs 0 0 0))
         ((period (eval M) (tt_inputs 0 1 0) ^^ 20) (tt_t0 M))"
    by (simp add: tt_vectors_split Let_def)
  have "tt_samples M ! 19 = fold (period (eval M)) (take (Suc 19) tt_vectors) (tt_t0 M)"
    unfolding tt_samples_def by (rule nth_run_periods) (simp add: tt_vectors_def)
  then show "tt_samples M ! 19 = (period (eval M) (tt_inputs 0 1 0) ^^ 20) (tt_t0 M)"
    by (simp add: tt_vectors_def)
  have "tt_samples M ! 25 = fold (period (eval M)) (take (Suc 25) tt_vectors) (tt_t0 M)"
    unfolding tt_samples_def by (rule nth_run_periods) (simp add: tt_vectors_def)
  then show "tt_samples M ! 25
     = period (eval M) (tt_inputs 0 1 1)
         ((period (eval M) (tt_inputs 0 0 0) ^^ 5)
            ((period (eval M) (tt_inputs 0 1 0) ^^ 20) (tt_t0 M)))"
    by (simp add: tt_vectors_def)
qed

lemma tt_tests_failed:
  "filter tt_failed (events (tt_tests M)) = tt_diagnostics M"
  by (simp add: tt_tests_def tt_test_failed tt_test1_simps(1,2) tt_test2_simps(1,2)
      tt_test3_simps(1,2) tt_init_simps tt_inputs_def)
    (simp add: tt_diagnostics_def tt_samples_parts tt_samples_drop Let_def tt_inputs_def)

lemma tt_main_failed:
  "filter tt_failed (events (fst (tt_main M))) = tt_diagnostics M"
  by (simp add: tt_main_def Let_def tt_tests_failed)

lemma adder_couts:
  "filter is_cout (events (fst (adder_main M)))
     = map adder_report (filter adder_mismatch (adder_trace M (new_in M, new_st M) adder_vectors))
       @ (if filter adder_mismatch (adder_trace M (new_in M, new_st M) adder_vectors) = []
          then [Cout Test_passed] else [])"
proof -
  have "filter is_cout (map adder_report xs) = map adder_report xs" for xs
    by (induction xs) (simp_all add: adder_report_def is_cout_def split: prod.splits)
  then show ?thesis
    using adder_fold_events [of M adder_vectors "adder_init M"]
      adder_fold_pass [of M adder_vectors "adder_init M"]
    by (simp add: adder_main_simps adder_loops_fold adder_init_simps is_cout_def)
qed

lemma reg_main_couts:
  "filter is_cout (events (fst (reg_main M)))
     = concat (map (reg_report M) (reg_checks M))
       @ [Cout (if pass (fst (reg_main M)) then Reg_passed else Reg_failed)]"
  by (simp add: reg_main_simps reg_couts) (simp add: is_cout_def)

lemma fold_invariant:
  assumes "\<And>x s. P s \<Longrightarrow> P (body x s)"
  shows "P s \<Longrightarrow> P (fold body xs s)"
  by (induction xs arbitrary: s) (simp_all add: assms)

lemma for_loop_invariant:
  assumes "\<And>x s. P s \<Longrightarrow> P (body x s)"
  shows "P s \<Longrightarrow> P (for_loop i n body s)"
  unfolding for_loop_fold by (rule fold_invariant) (rule assms)

lemma tt_body_flagged:
  "pass s = (filter tt_failed (events s) = [])
    \<Longrightarrow> pass (tt_cycle M i s) = (filter tt_failed (events (tt_cycle M i s)) = [])"
  "pass s = (filter tt_failed (events s) = [])
    \<Longrightarrow> pass (tt_hold M f i s) = (filter tt_failed (events (tt_hold M f i s)) = [])"
  "pass s = (filter tt_failed (events s) = [])
    \<Longrightarrow> pass (tt_check_overflow M i s) = (filter tt_failed (events (tt_check_overflow M i s)) = [])"
  by (simp_all add: tt_cycle_failed tt_hold_failed tt_check_overflow_failed
      tt_cycle_simps tt_hold_simps tt_check_overflow_simps)

lemma tt_test_flagged:
  assumes "pass s = (filter tt_failed (events s) = [])"
  shows "pass (tt_test1 M s) = (filter tt_failed (events (tt_test1 M s)) = [])"
    and "pass (tt_test2 M s) = (filter tt_failed (events (tt_test2 M s)) = [])"
    and "pass (tt_test3 M s) = (filter tt_failed (events (tt_test3 M s)) = [])"
    and "pass (tt_test4 M s) = (filter tt_failed (events (tt_test4 M s)) = [])"
proof -
  show "pass (tt_test1 M s) = (filter tt_failed (events (tt_test1 M s)) = [])"
    unfolding tt_test1_def Let_def
    by (rule for_loop_invariant [where P = "\<lambda>s. pass s = (filter tt_failed (events s) = [])"])
      (simp_all add: tt_body_flagged assms)
  have "pass (for_loop 0 5 (tt_hold M f) (print (Heading 2) s\<lparr>dut_in := i\<rparr>))
      = (filter tt_failed (events (for_loop 0 5 (tt_hold M f) (print (Heading 2) s\<lparr>dut_in := i\<rparr>))) = [])"
    for f i
    by (rule for_loop_invariant [where P = "\<lambda>s. pass s = (filter tt_failed (events s) = [])"])
      (simp_all add: tt_body_flagged assms)
  then show "pass (tt_test2 M s) = (filter tt_failed (events (tt_test2 M s)) = [])"
    by (simp add: tt_test2_def Let_def)
  show "pass (tt_test3 M s) = (filter tt_failed (events (tt_test3 M s)) = [])"
    using assms by (simp add: tt_test3_def Let_def)
  have "pass (for_loop 0 10 (tt_check_overflow M) (tt_period M (print (Heading 4) s\<lparr>dut_in := i\<rparr>)\<lparr>dut_in := j\<rparr>))
      = (filter tt_failed (events (for_loop 0 10 (tt_check_overflow M)
            (tt_period M (print (Heading 4) s\<lparr>dut_in := i\<rparr>)\<lparr>dut_in := j\<rparr>))) = [])"
    for i j
    by (rule for_loop_invariant [where P = "\<lambda>s. pass s = (filter tt_failed (events s) = [])"])
      (simp_all add: tt_body_flagged assms)
  then show "pass (tt_test4 M s) = (filter tt_failed (events (tt_test4 M s)) = [])"
    by (simp add: tt_test4_def Let_def)
qed

lemma tt_tests_flagged: "pass (tt_tests M) = (tt_diagnostics M = [])"
proof -
  have "pass (tt_init M) = (filter tt_failed (events (tt_init M)) = [])"
    by (simp add: tt_init_simps)
  then have "pass (tt_tests M) = (filter tt_failed (events (tt_tests M)) = [])"
    unfolding tt_tests_def by (intro tt_test_flagged)
  then show ?thesis
    by (simp add: tt_tests_failed)
qed

lemma reg_flagged:
  "pass (fst (reg_main M)) = (concat (map (reg_report M) (reg_checks M)) = [])"
  by (simp add: reg_main_simps reg_loop_pass)
    (auto simp add: reg_checks_def reg_samples_unroll Let_def upto_rec1 test_cases_def
      reg_report_def)

section \<open>The verdict over a run\<close>



text \<open>
  Claim C7.  No comparison stops a run.  Whatever the simulated circuit answers, the
  adder testbench drives all 256 pairs, the register testbench all four cases and the
  counter testbench all 37 periods; the lines that report failed comparisons are, in
  order, one for each comparison that fails over the whole run (then the summary, for
  the adder when nothing failed, for the register always); and the verdict of the
  register and counter testbenches is true exactly when there is no such line.
\<close>

theorem mismatch_does_not_stop_run:
  "(dut_in (adder_loops A (adder_init A)), dut_st (adder_loops A (adder_init A)))
     = fold (adder_drive A) adder_vectors (new_in A, new_st A)
   \<and> filter is_cout (events (fst (adder_main A)))
     = map adder_report (filter adder_mismatch (adder_trace A (new_in A, new_st A) adder_vectors))
       @ (if filter adder_mismatch (adder_trace A (new_in A, new_st A) adder_vectors) = []
          then [Cout Test_passed] else [])
   \<and> pass (fst (adder_main A))
     = (filter adder_mismatch (adder_trace A (new_in A, new_st A) adder_vectors) = [])
   \<and> dut_st (reg_loop R (reg_reset R (reg_start R)))
     = fold (period (eval R)) (map reg_vector test_cases) (reg_t0 R)
   \<and> filter is_cout (events (fst (reg_main R)))
     = concat (map (reg_report R) (reg_checks R))
       @ [Cout (if pass (fst (reg_main R)) then Reg_passed else Reg_failed)]
   \<and> pass (fst (reg_main R)) = (concat (map (reg_report R) (reg_checks R)) = [])
   \<and> dut_st (tt_tests T) = fold (period (eval T)) tt_vectors (tt_t0 T)
   \<and> filter tt_failed (events (fst (tt_main T))) = tt_diagnostics T
   \<and> pass (fst (tt_main T)) = (tt_diagnostics T = [])"
  using adder_fold_dut [of A adder_vectors "adder_init A"]
    adder_fold_pass [of A adder_vectors "adder_init A"]
    adder_couts [of A] reg_loop_st [of R] reg_main_couts [of R] reg_flagged [of R]
    tt_tests_st [of T] tt_main_failed [of T] tt_tests_flagged [of T]
  by (simp add: adder_loops_fold adder_init_simps adder_main_simps tt_main_simps)

theorem mismatch_does_not_stop_run_witness:
  "filter tt_failed (events (fst (tt_main tt_stuck)))
     = [Cout (Failed_initial 3), Cout (Failed_cycle 0 1 3), Cout (Failed_cycle 1 2 3),
        Cout (Failed_cycle 3 4 3), Cout (Failed_cycle 4 5 3), Cout (Failed_cycle 5 6 3),
        Cout (Failed_cycle 6 7 3), Cout (Failed_cycle 7 8 3), Cout (Failed_cycle 8 9 3),
        Cout (Failed_cycle 9 0 3), Cout (Failed_cycle 10 1 3), Cout (Failed_cycle 11 2 3),
        Cout (Failed_cycle 13 4 3), Cout (Failed_cycle 14 5 3), Cout (Failed_cycle 15 6 3),
        Cout (Failed_cycle 16 7 3), Cout (Failed_cycle 17 8 3), Cout (Failed_cycle 18 9 3),
        Cout (Failed_cycle 19 0 3), Cout Failed_reset]
   \<and> \<not> pass (fst (tt_main tt_stuck))
   \<and> filter is_cout (events (fst (reg_main reg_noreset)))
     = [Cout (Error_at 2 0 5), Cout Reg_failed]
   \<and> length (filter is_cout (events (fst (adder_main adder_stuck)))) = 240"
proof -
  have t: "tt_diagnostics tt_stuck
     = [Cout (Failed_initial 3), Cout (Failed_cycle 0 1 3), Cout (Failed_cycle 1 2 3),
        Cout (Failed_cycle 3 4 3), Cout (Failed_cycle 4 5 3), Cout (Failed_cycle 5 6 3),
        Cout (Failed_cycle 6 7 3), Cout (Failed_cycle 7 8 3), Cout (Failed_cycle 8 9 3),
        Cout (Failed_cycle 9 0 3), Cout (Failed_cycle 10 1 3), Cout (Failed_cycle 11 2 3),
        Cout (Failed_cycle 13 4 3), Cout (Failed_cycle 14 5 3), Cout (Failed_cycle 15 6 3),
        Cout (Failed_cycle 16 7 3), Cout (Failed_cycle 17 8 3), Cout (Failed_cycle 18 9 3),
        Cout (Failed_cycle 19 0 3), Cout Failed_reset]"
    by code_simp
  have r: "concat (map (reg_report reg_noreset) (reg_checks reg_noreset)) = [Cout (Error_at 2 0 5)]"
    by code_simp
  have a: "length (filter adder_mismatch
      (adder_trace adder_stuck (new_in adder_stuck, new_st adder_stuck) adder_vectors)) = 240"
    by code_simp
  then have a': "filter adder_mismatch
      (adder_trace adder_stuck (new_in adder_stuck, new_st adder_stuck) adder_vectors) \<noteq> []"
    by auto
  note m = mismatch_does_not_stop_run [of adder_stuck reg_noreset tt_stuck]
  have "filter tt_failed (events (fst (tt_main tt_stuck))) = tt_diagnostics tt_stuck"
    using m by blast
  moreover have "pass (fst (tt_main tt_stuck)) = (tt_diagnostics tt_stuck = [])"
    using m by blast
  moreover have "pass (fst (reg_main reg_noreset))
      = (concat (map (reg_report reg_noreset) (reg_checks reg_noreset)) = [])"
    using m by blast
  moreover have "filter is_cout (events (fst (reg_main reg_noreset)))
     = concat (map (reg_report reg_noreset) (reg_checks reg_noreset))
       @ [Cout (if pass (fst (reg_main reg_noreset)) then Reg_passed else Reg_failed)]"
    using m by blast
  moreover have "filter is_cout (events (fst (adder_main adder_stuck)))
     = map adder_report (filter adder_mismatch
         (adder_trace adder_stuck (new_in adder_stuck, new_st adder_stuck) adder_vectors))
       @ (if filter adder_mismatch
            (adder_trace adder_stuck (new_in adder_stuck, new_st adder_stuck) adder_vectors) = []
          then [Cout Test_passed] else [])"
    using m by blast
  ultimately show ?thesis
    using t r a a' by simp
qed

section \<open>How a vector is applied\<close>

lemma adder_body_reads:
  "dut_st (adder_body A a b sa)
     = eval A ((dut_in sa)\<lparr>io_a := word_of_int a, io_b := word_of_int b\<rparr>) (dut_st sa)"
  "pass (adder_body A a b sa)
     = (pass sa \<and> uint (io_c (outputs A (eval A
          ((dut_in sa)\<lparr>io_a := word_of_int a, io_b := word_of_int b\<rparr>) (dut_st sa)))) = (a + b) mod 16)"
  "events (adder_body A a b sa)
     = events sa @ (if uint (io_c (outputs A (eval A
          ((dut_in sa)\<lparr>io_a := word_of_int a, io_b := word_of_int b\<rparr>) (dut_st sa)))) = (a + b) mod 16
        then []
        else [Cout (Test_failed a b (uint (io_c (outputs A (eval A
          ((dut_in sa)\<lparr>io_a := word_of_int a, io_b := word_of_int b\<rparr>) (dut_st sa)))))
            ((a + b) mod 16))])"
  by (simp_all add: adder_body_def Let_def expected_c_mod)

lemma adder_run_reads:
  "events (adder_loops A (adder_init A))
     = map adder_report (filter adder_mismatch
         (map2 (\<lambda>v t. (fst v, snd v, uint (io_c (outputs A t)))) adder_vectors
            (run_evals (eval A) (map adder_inputs adder_vectors) (new_st A))))"
  "pass (adder_loops A (adder_init A))
     = (filter adder_mismatch
         (map2 (\<lambda>v t. (fst v, snd v, uint (io_c (outputs A t)))) adder_vectors
            (run_evals (eval A) (map adder_inputs adder_vectors) (new_st A))) = [])"
  using adder_fold_events [of A adder_vectors "adder_init A"]
    adder_fold_pass [of A adder_vectors "adder_init A"]
    adder_trace_evals [of A "(new_in A, new_st A)" adder_vectors]
  by (simp_all add: adder_loops_fold adder_init_simps)

text \<open>
  Claim C8.  The values of the input ports at the successive calls of \<open>eval()\<close> are,
  for every simulated circuit: in the adder testbench, one call for each pair, with
  the pair on \<open>io_a\<close> and \<open>io_b\<close> (there is no clock port); in the register testbench,
  after the two calls of the initial reset, two calls for each test case, with the
  inputs of the case and the clock high, then the same inputs and the clock low; in
  the counter testbench, after the two calls of the start, two calls for each of the
  37 periods, clock high then clock low with the other inputs held.  The outputs
  compared are read from the states that these calls leave.  In the adder testbench
  one iteration sets the two inputs and leaves the state of one evaluation; its
  verdict and the line it prints are those of the \<open>io_c\<close> of that state; and over the
  run, the lines printed and the verdict are those of the \<open>io_c\<close> read from the state
  after the evaluation of each pair.  In the register and counter testbenches the
  verdict is that of the outputs of the states at the end of each pair of calls
  (every second state of the run).
\<close>

theorem vectors_applied_by_clock_periods:
  "dut_st (adder_loops A (adder_init A))
     = fold (eval A) (map adder_inputs adder_vectors) (new_st A)
   \<and> adder_trace A (new_in A, new_st A) adder_vectors
     = map2 (\<lambda>v t. (fst v, snd v, uint (io_c (outputs A t)))) adder_vectors
         (run_evals (eval A) (map adder_inputs adder_vectors) (new_st A))
   \<and> adder_inputs (a, b) = \<lparr>io_a = word_of_int a, io_b = word_of_int b\<rparr>
   \<and> dut_st (adder_body A a b sa)
     = eval A ((dut_in sa)\<lparr>io_a := word_of_int a, io_b := word_of_int b\<rparr>) (dut_st sa)
   \<and> pass (adder_body A a b sa)
     = (pass sa \<and> uint (io_c (outputs A (eval A
          ((dut_in sa)\<lparr>io_a := word_of_int a, io_b := word_of_int b\<rparr>) (dut_st sa)))) = (a + b) mod 16)
   \<and> events (adder_body A a b sa)
     = events sa @ (if uint (io_c (outputs A (eval A
          ((dut_in sa)\<lparr>io_a := word_of_int a, io_b := word_of_int b\<rparr>) (dut_st sa)))) = (a + b) mod 16
        then []
        else [Cout (Test_failed a b (uint (io_c (outputs A (eval A
          ((dut_in sa)\<lparr>io_a := word_of_int a, io_b := word_of_int b\<rparr>) (dut_st sa)))))
            ((a + b) mod 16))])
   \<and> events (adder_loops A (adder_init A))
     = map adder_report (filter adder_mismatch
         (map2 (\<lambda>v t. (fst v, snd v, uint (io_c (outputs A t)))) adder_vectors
            (run_evals (eval A) (map adder_inputs adder_vectors) (new_st A))))
   \<and> pass (fst (adder_main A))
     = (filter adder_mismatch
         (map2 (\<lambda>v t. (fst v, snd v, uint (io_c (outputs A t)))) adder_vectors
            (run_evals (eval A) (map adder_inputs adder_vectors) (new_st A))) = [])
   \<and> dut_st (reg_loop R (reg_reset R (reg_start R)))
     = fold (eval R) (reg_eval_inputs R) (new_st R)
   \<and> reg_eval_inputs R
     = reg_reset_inputs R
       @ concat (map (\<lambda>tc. [(reg_vector tc)\<lparr>clock := 1\<rparr>, (reg_vector tc)\<lparr>clock := 0\<rparr>]) test_cases)
   \<and> seconds (run_evals (eval R) (reg_eval_inputs R) (new_st R)) = reg_t0 R # reg_samples R
   \<and> pass (fst (reg_main R))
     = (map (reg_q R) (reg_samples R) = map (\<lambda>tc. uint (expected_q tc)) test_cases)
   \<and> dut_st (tt_tests T) = fold (eval T) tt_eval_inputs (new_st T)
   \<and> tt_eval_inputs
     = [tt_inputs 1 0 0, tt_inputs 0 0 0]
       @ concat (map (\<lambda>i. [i\<lparr>clock := 1\<rparr>, i\<lparr>clock := 0\<rparr>]) tt_vectors)
   \<and> seconds (run_evals (eval T) tt_eval_inputs (new_st T)) = tt_t0 T # tt_samples T
   \<and> pass (fst (tt_main T))
     = (count_of T (tt_t0 T) = 0
        \<and> map (count_of T) (take 26 (tt_samples T)) = oracle_counts 0 (take 26 tt_vectors)
        \<and> list_all (overflow_ok T) (drop 27 (tt_samples T)))"
proof -
  have "reg_eval_inputs R
     = reg_reset_inputs R
       @ concat (map (\<lambda>tc. [(reg_vector tc)\<lparr>clock := 1\<rparr>, (reg_vector tc)\<lparr>clock := 0\<rparr>]) test_cases)"
    by (simp add: reg_eval_inputs_def period_inputs_def comp_def)
  moreover have "tt_eval_inputs
     = [tt_inputs 1 0 0, tt_inputs 0 0 0]
       @ concat (map (\<lambda>i. [i\<lparr>clock := 1\<rparr>, i\<lparr>clock := 0\<rparr>]) tt_vectors)"
    unfolding tt_eval_inputs_def period_inputs_def [abs_def] by (rule refl)
  moreover have "adder_inputs (a, b) = \<lparr>io_a = word_of_int a, io_b = word_of_int b\<rparr>"
    by (simp add: adder_inputs_def)
  moreover have "pass (fst (adder_main A)) = pass (adder_loops A (adder_init A))"
    by (rule adder_main_simps)
  moreover note adder_loops_st [of A] adder_trace_evals [of A "(new_in A, new_st A)" adder_vectors]
    adder_body_reads [of A a b sa] adder_run_reads [of A]
    reg_evals_st [of R] reg_seconds [of R] reg_loop_pass [of R] reg_main_simps(1) [of R]
    tt_evals_st [of T] tt_seconds [of T] tt_verdict [of T] tt_main_simps(1) [of T]
  ultimately show ?thesis
    by (simp only: snd_conv simp_thms)
qed

theorem vectors_applied_by_clock_periods_witness:
  "dut_st (adder_loops adder_good (adder_init adder_good)) = 14
   \<and> dut_st (reg_loop reg_good (reg_reset reg_good (reg_start reg_good))) = (0, 5)
   \<and> dut_st (tt_tests tt_good) = (0, 0, 0)
   \<and> pass (fst (tt_main tt_good))
   \<and> pass (fst (adder_main adder_good)) \<and> \<not> pass (fst (adder_main adder_stuck))
   \<and> \<not> pass (adder_body adder_stuck 0 1 (adder_init adder_stuck))
   \<and> events (adder_body adder_stuck 0 1 (adder_init adder_stuck)) = [Cout (Test_failed 0 1 0 1)]"
proof -
  have a: "fold (eval adder_good) (map adder_inputs adder_vectors) (new_st adder_good) = 14"
    by code_simp
  have r: "fold (eval reg_good) (reg_eval_inputs reg_good) (new_st reg_good) = (0, 5)"
    by code_simp
  have t: "fold (eval tt_good) tt_eval_inputs (new_st tt_good) = (0, 0, 0)"
    by code_simp
  have v: "count_of tt_good (tt_t0 tt_good) = 0
      \<and> map (count_of tt_good) (take 26 (tt_samples tt_good)) = oracle_counts 0 (take 26 tt_vectors)
      \<and> list_all (overflow_ok tt_good) (drop 27 (tt_samples tt_good))"
    by code_simp
  have ag: "filter adder_mismatch
         (map2 (\<lambda>v t. (fst v, snd v, uint (io_c (outputs adder_good t)))) adder_vectors
            (run_evals (eval adder_good) (map adder_inputs adder_vectors) (new_st adder_good))) = []"
    by code_simp
  have ab: "filter adder_mismatch
         (map2 (\<lambda>v t. (fst v, snd v, uint (io_c (outputs adder_stuck t)))) adder_vectors
            (run_evals (eval adder_stuck) (map adder_inputs adder_vectors) (new_st adder_stuck))) \<noteq> []"
    by code_simp
  have b1: "uint (io_c (outputs adder_stuck (eval adder_stuck
          ((dut_in (adder_init adder_stuck))\<lparr>io_a := word_of_int 0, io_b := word_of_int 1\<rparr>)
          (dut_st (adder_init adder_stuck))))) = 0
      \<and> events (adder_init adder_stuck) = []"
    by code_simp
  note m = vectors_applied_by_clock_periods [where A = adder_good and R = reg_good
      and T = tt_good and a = 0 and b = 1 and sa = "adder_init adder_good"]
  note n = vectors_applied_by_clock_periods [where A = adder_stuck and R = reg_good
      and T = tt_good and a = 0 and b = 1 and sa = "adder_init adder_stuck"]
  have "dut_st (adder_loops adder_good (adder_init adder_good))
      = fold (eval adder_good) (map adder_inputs adder_vectors) (new_st adder_good)"
    using m by blast
  moreover have "dut_st (reg_loop reg_good (reg_reset reg_good (reg_start reg_good)))
      = fold (eval reg_good) (reg_eval_inputs reg_good) (new_st reg_good)"
    using m by blast
  moreover have "dut_st (tt_tests tt_good) = fold (eval tt_good) tt_eval_inputs (new_st tt_good)"
    using m by blast
  moreover have "pass (fst (tt_main tt_good))"
    using m v by blast
  moreover have "pass (fst (adder_main adder_good))"
    using m ag by blast
  moreover have "\<not> pass (fst (adder_main adder_stuck))"
    using n ab by blast
  moreover have "pass (adder_body adder_stuck 0 1 (adder_init adder_stuck))
     = (pass (adder_init adder_stuck) \<and> uint (io_c (outputs adder_stuck (eval adder_stuck
          ((dut_in (adder_init adder_stuck))\<lparr>io_a := word_of_int 0, io_b := word_of_int 1\<rparr>)
          (dut_st (adder_init adder_stuck))))) = (0 + 1) mod 16)"
    using n by blast
  moreover have "events (adder_body adder_stuck 0 1 (adder_init adder_stuck))
     = events (adder_init adder_stuck) @ (if uint (io_c (outputs adder_stuck (eval adder_stuck
          ((dut_in (adder_init adder_stuck))\<lparr>io_a := word_of_int 0, io_b := word_of_int 1\<rparr>)
          (dut_st (adder_init adder_stuck))))) = (0 + 1) mod 16
        then []
        else [Cout (Test_failed 0 1 (uint (io_c (outputs adder_stuck (eval adder_stuck
          ((dut_in (adder_init adder_stuck))\<lparr>io_a := word_of_int 0, io_b := word_of_int 1\<rparr>)
          (dut_st (adder_init adder_stuck))))))
            ((0 + 1) mod 16))])"
    using n by blast
  ultimately show ?thesis
    using a r t b1 by simp
qed

end
